theory Spec2Isabelle
  imports Main
begin

section \<open>Python values used by the two front-ends\<close>

text \<open>
  A Python \<open>str\<close> is modelled as a HOL \<open>string\<close> holding its UTF-8 encoding, one
  \<open>char\<close> per byte; the ASCII range is one byte per character.  Substring tests,
  concatenation and replacement of well-formed text agree on code points and on
  UTF-8 bytes.  The three non-ASCII characters the source writes are given by their bytes.
\<close>

definition em_dash :: string where
  "em_dash = [CHR 0xE2, CHR 0x80, CHR 0x94]"

definition ellipsis :: string where
  "ellipsis = [CHR 0xE2, CHR 0x80, CHR 0xA6]"

definition right_arrow :: string where
  "right_arrow = [CHR 0xE2, CHR 0x86, CHR 0x92]"

datatype py_error = ValueError

subsection \<open>\<open>str(n)\<close> for integers\<close>

definition digit_char :: "nat \<Rightarrow> char" where
  "digit_char d = ''0123456789'' ! d"

fun str_nat :: "nat \<Rightarrow> string" where
  "str_nat n = (if n < 10 then [digit_char n] else str_nat (n div 10) @ [digit_char (n mod 10)])"

declare str_nat.simps [simp del]

definition str_int :: "int \<Rightarrow> string" where
  "str_int i = (if i < 0 then CHR ''-'' # str_nat (nat (- i)) else str_nat (nat i))"

text \<open>Reading a digit string back, used only to state that \<open>str_nat\<close> is decimal notation.\<close>

definition digit_value :: "char \<Rightarrow> nat" where
  "digit_value c = of_char c - 48"

definition decimal_value :: "string \<Rightarrow> nat" where
  "decimal_value s = foldl (\<lambda>acc c. 10 * acc + digit_value c) 0 s"

subsection \<open>\<open>needle in line\<close>, \<open>str.strip\<close>, \<open>str.replace\<close>\<close>

definition startswith :: "string \<Rightarrow> string \<Rightarrow> bool" where
  "startswith s p = (take (length p) s = p)"

fun contains :: "string \<Rightarrow> string \<Rightarrow> bool" where
  "contains needle [] = (needle = [])"
| "contains needle (c # cs) = (startswith (c # cs) needle \<or> contains needle cs)"

text \<open>
  The characters \<open>str.strip()\<close> removes are those with \<open>str.isspace()\<close>: U+0009..U+000D,
  U+001C..U+0020, U+0085, U+00A0, U+1680, U+2000..U+200A, U+2028, U+2029, U+202F, U+205F
  and U+3000, listed here by their UTF-8 encodings.
\<close>

definition whitespace :: "string list" where
  "whitespace =
    [[CHR 0x09], [CHR 0x0A], [CHR 0x0B], [CHR 0x0C], [CHR 0x0D],
     [CHR 0x1C], [CHR 0x1D], [CHR 0x1E], [CHR 0x1F], [CHR 0x20],
     [CHR 0xC2, CHR 0x85], [CHR 0xC2, CHR 0xA0],
     [CHR 0xE1, CHR 0x9A, CHR 0x80],
     [CHR 0xE2, CHR 0x80, CHR 0x80], [CHR 0xE2, CHR 0x80, CHR 0x81],
     [CHR 0xE2, CHR 0x80, CHR 0x82], [CHR 0xE2, CHR 0x80, CHR 0x83],
     [CHR 0xE2, CHR 0x80, CHR 0x84], [CHR 0xE2, CHR 0x80, CHR 0x85],
     [CHR 0xE2, CHR 0x80, CHR 0x86], [CHR 0xE2, CHR 0x80, CHR 0x87],
     [CHR 0xE2, CHR 0x80, CHR 0x88], [CHR 0xE2, CHR 0x80, CHR 0x89],
     [CHR 0xE2, CHR 0x80, CHR 0x8A],
     [CHR 0xE2, CHR 0x80, CHR 0xA8], [CHR 0xE2, CHR 0x80, CHR 0xA9],
     [CHR 0xE2, CHR 0x80, CHR 0xAF],
     [CHR 0xE2, CHR 0x81, CHR 0x9F],
     [CHR 0xE3, CHR 0x80, CHR 0x80]]"

function strip_leading :: "string list \<Rightarrow> string \<Rightarrow> string" where
  "strip_leading ws s =
     (case find (\<lambda>w. w \<noteq> [] \<and> startswith s w) ws of
        Some w \<Rightarrow> strip_leading ws (drop (length w) s)
      | None \<Rightarrow> s)"
  by pat_completeness auto
termination
proof (relation "measure (\<lambda>(ws, s). length s)")
  show "wf (measure (\<lambda>(ws, s). length s))" by simp
next
  fix ws :: "string list" and s w :: string
  assume "find (\<lambda>w. w \<noteq> [] \<and> startswith s w) ws = Some w"
  then have "w \<noteq> []" and "startswith s w"
    by (auto simp: find_Some_iff)
  then have "s \<noteq> []"
    by (auto simp: startswith_def)
  with \<open>w \<noteq> []\<close> show "((ws, drop (length w) s), (ws, s)) \<in> measure (\<lambda>(ws, s). length s)"
    by simp
qed

declare strip_leading.simps [simp del]

definition lstrip :: "string \<Rightarrow> string" where
  "lstrip s = strip_leading whitespace s"

definition rstrip :: "string \<Rightarrow> string" where
  "rstrip s = rev (strip_leading (map rev whitespace) (rev s))"

definition strip :: "string \<Rightarrow> string" where
  "strip s = rstrip (lstrip s)"

text \<open>\<open>s.replace(old, new)\<close>: every non-overlapping occurrence, leftmost first.\<close>

function replace :: "string \<Rightarrow> string \<Rightarrow> string \<Rightarrow> string" where
  "replace s old new =
     (if old = [] then new @ concat (map (\<lambda>c. c # new) s)
      else if s = [] then []
      else if startswith s old then new @ replace (drop (length old) s) old new
      else hd s # replace (tl s) old new)"
  by pat_completeness auto
termination
  by (relation "measure (\<lambda>(s, old, new). length s)") auto

declare replace.simps [simp del]

section \<open>Image-size presets and the size arguments\<close>

definition SIZE_SMALL_MAX :: int where "SIZE_SMALL_MAX = 100 * 1024"
definition SIZE_MEDIUM_MIN :: int where "SIZE_MEDIUM_MIN = 100 * 1024"
definition SIZE_MEDIUM_MAX :: int where "SIZE_MEDIUM_MAX = 1024 * 1024"
definition SIZE_LARGE_MIN :: int where "SIZE_LARGE_MIN = 1024 * 1024"

text \<open>\<open>_size_to_arg\<close> of \<open>strigil/gui.py\<close>; \<open>//\<close> is floor division, as \<open>div\<close> on \<open>int\<close>.\<close>

definition size_to_arg :: "int \<Rightarrow> string" where
  "size_to_arg n =
     (if n \<ge> 1024 * 1024 then str_int (n div (1024 * 1024)) @ ''m''
      else if n \<ge> 1024 then str_int (n div 1024) @ ''k''
      else str_int n)"

text \<open>\<open>min(lows)\<close> and \<open>max(...)\<close> raise \<open>ValueError\<close> on an empty sequence.\<close>

definition py_min :: "int list \<Rightarrow> py_error + int" where
  "py_min xs = (case xs of [] \<Rightarrow> Inl ValueError | x # rest \<Rightarrow> Inr (fold min rest x))"

definition py_max :: "int list \<Rightarrow> py_error + int" where
  "py_max xs = (case xs of [] \<Rightarrow> Inl ValueError | x # rest \<Rightarrow> Inr (fold max rest x))"

text \<open>\<open>_image_size_args\<close> of \<open>strigil/gui.py\<close>.  \<open>highs\<close> holds \<open>None\<close> for "no maximum".\<close>

definition size_bounds :: "bool \<Rightarrow> bool \<Rightarrow> bool \<Rightarrow> int list \<times> int option list" where
  "size_bounds small medium large =
     ((if small then [0] else []) @ (if medium then [SIZE_MEDIUM_MIN] else [])
        @ (if large then [SIZE_LARGE_MIN] else []),
      (if small then [Some SIZE_SMALL_MAX] else []) @ (if medium then [Some SIZE_MEDIUM_MAX] else [])
        @ (if large then [None] else []))"

definition image_size_args :: "bool \<Rightarrow> bool \<Rightarrow> bool \<Rightarrow> py_error + string list" where
  "image_size_args small medium large =
     (let (lows, highs) = size_bounds small medium large in
      if lows = [] then Inr []
      else
        case py_min lows of
          Inl e \<Rightarrow> Inl e
        | Inr low \<Rightarrow>
            (case (if None \<in> set highs then Inr None
                   else (case py_max [h. Some h \<leftarrow> highs] of
                           Inl e \<Rightarrow> Inl e
                         | Inr h \<Rightarrow> Inr (Some h))) of
               Inl e \<Rightarrow> Inl e
             | Inr high \<Rightarrow>
                 Inr ((if low > 0 then [''--min-image-size'', size_to_arg low] else [])
                      @ (case high of
                           None \<Rightarrow> []
                         | Some h \<Rightarrow> [''--max-image-size'', size_to_arg h]))))"

section \<open>The basic scraper front-end (\<open>web_scraper/gui.py\<close>)\<close>

text \<open>
  The values \<open>run_scrape\<close> reads from the widgets.  \<open>ws_delay_str\<close> is \<open>str(delay)\<close>
  (float formatting is not modelled), \<open>ws_depth_var\<close> is \<open>None\<close> when \<open>int(depth_var.get())\<close>
  raises, and \<open>ws_base\<close> is the interpreter or frozen-binary prefix of the command.
\<close>

record ws_form =
  ws_url_var :: string
  ws_out_var :: string
  ws_delay_str :: string
  ws_depth_var :: "int option"
  ws_type_pdf_var :: bool
  ws_type_text_var :: bool
  ws_type_images_var :: bool
  ws_size_small_var :: bool
  ws_size_medium_var :: bool
  ws_size_large_var :: bool
  ws_crawl_var :: bool
  ws_same_domain_var :: bool
  ws_base :: "string list"

definition newline :: string where
  "newline = [CHR 0x0A]"

text \<open>The nested \<open>_size_to_arg\<close> of \<open>run_scrape\<close>.\<close>

definition ws_size_to_arg :: "int \<Rightarrow> string" where
  "ws_size_to_arg n =
     (if n \<ge> 1024 * 1024 then str_int (n div (1024 * 1024)) @ ''m''
      else if n \<ge> 1024 then str_int (n div 1024) @ ''k''
      else str_int n)"

definition selected_types :: "bool \<Rightarrow> bool \<Rightarrow> bool \<Rightarrow> string list" where
  "selected_types pdf text images =
     (if pdf then [''pdf''] else []) @ (if text then [''text''] else [])
       @ (if images then [''images''] else [])"

text \<open>Lines 197 to 214: the size arguments appended to \<open>cmd\<close>.\<close>

definition ws_size_args :: "bool \<Rightarrow> bool \<Rightarrow> bool \<Rightarrow> py_error + string list" where
  "ws_size_args small medium large =
     (let (lows, highs) = size_bounds small medium large in
      if lows \<noteq> [] then
        case py_min lows of
          Inl e \<Rightarrow> Inl e
        | Inr low \<Rightarrow>
            (case (if None \<in> set highs then Inr None
                   else (case py_max [h. Some h \<leftarrow> highs] of
                           Inl e \<Rightarrow> Inl e
                         | Inr h \<Rightarrow> Inr (Some h))) of
               Inl e \<Rightarrow> Inl e
             | Inr high \<Rightarrow>
                 Inr ((if low > 0 then [''--min-image-size'', ws_size_to_arg low] else [])
                      @ (case high of
                           None \<Rightarrow> []
                         | Some h \<Rightarrow> [''--max-image-size'', ws_size_to_arg h])))
      else Inr [])"

text \<open>
  What \<open>run_scrape\<close> does with the form: it logs a message and returns (\<open>Rejected\<close>), or
  starts the worker thread on a command (\<open>Launch\<close>).
\<close>

datatype launch = Rejected string | Launch "string list"

definition ws_tail :: "ws_form \<Rightarrow> string list \<Rightarrow> py_error + launch" where
  "ws_tail f cmd =
     (case ws_size_args (ws_size_small_var f) (ws_size_medium_var f) (ws_size_large_var f) of
        Inl e \<Rightarrow> Inl e
      | Inr size_args \<Rightarrow>
          Inr (Launch (cmd @ size_args
            @ (if ws_crawl_var f
               then [''--crawl'', ''--max-depth'',
                     str_int (case ws_depth_var f of Some d \<Rightarrow> d | None \<Rightarrow> 2)]
                    @ (if ws_same_domain_var f then [''--same-domain-only''] else [])
               else []))))"

definition ws_run_scrape :: "ws_form \<Rightarrow> py_error + launch" where
  "ws_run_scrape f =
     (let url = strip (ws_url_var f) in
      if url = [] then Inr (Rejected (''Error: URL is required.'' @ newline))
      else
        let out = strip (ws_out_var f);
            cmd = ws_base f @ [''--url'', url]
                  @ [''--out-dir'', if out \<noteq> [] then out else ''output'',
                     ''--delay'', ws_delay_str f];
            sel = selected_types (ws_type_pdf_var f) (ws_type_text_var f) (ws_type_images_var f)
        in if sel \<noteq> [] \<and> length sel < 3 then ws_tail f (cmd @ ''--types'' # sel)
           else if sel = [] then Inr (Rejected (''Error: Select at least one file type.'' @ newline))
           else ws_tail f cmd)"

section \<open>The Strigil front-end (\<open>strigil/gui.py\<close>): command builder\<close>

text \<open>
  The widget values \<open>run_scrape\<close> reads.  \<open>url_lines\<close> is the URL box split into lines,
  \<open>delay_str\<close> is \<open>str(delay)\<close> after the fallback to 0.5, \<open>depth_var\<close> and \<open>workers_var\<close>
  are \<open>None\<close> when reading them as \<open>int\<close> raises, and \<open>base_cmd\<close> is the interpreter or
  frozen-binary prefix.
\<close>

record form =
  url_lines :: "string list"
  urls_mode_var :: string
  out_var :: string
  done_script_var :: string
  type_pdf_var :: bool
  type_text_var :: bool
  type_images_var :: bool
  size_small_var :: bool
  size_medium_var :: bool
  size_large_var :: bool
  delay_str :: string
  depth_var :: "int option"
  workers_var :: "int option"
  js_var :: bool
  flaresolverr_var :: bool
  flaresolverr_url_var :: string
  crawl_var :: bool
  same_domain_var :: bool
  keep_awake_var :: bool
  base_cmd :: "string list"

text \<open>The local variables of \<open>run_scrape\<close> that the closure \<open>build_cmd\<close> reads.\<close>

record locals =
  common_args :: "string list"
  out_dir :: string
  delay :: string
  types_args :: "string list"
  done_script :: string

definition crawl_args :: "form \<Rightarrow> string list" where
  "crawl_args f =
     (if crawl_var f
      then [''--crawl'', ''--max-depth'', str_int (case depth_var f of Some d \<Rightarrow> d | None \<Rightarrow> 2)]
           @ (case workers_var f of
                Some w \<Rightarrow> [''--workers'', str_int (max 1 (min 12 w))]
              | None \<Rightarrow> [])
           @ (if same_domain_var f then [''--same-domain-only''] else [])
      else [])"

definition flaresolverr_args :: "form \<Rightarrow> string list" where
  "flaresolverr_args f =
     (if flaresolverr_var f
      then (let url_opt = strip (flaresolverr_url_var f)
            in if url_opt \<noteq> [] then [''--flaresolverr'', url_opt] else [''--flaresolverr''])
      else [])"

text \<open>Lines 413 to 440 of \<open>run_scrape\<close>.\<close>

definition run_scrape_locals :: "form \<Rightarrow> py_error + locals" where
  "run_scrape_locals f =
     (case image_size_args (size_small_var f) (size_medium_var f) (size_large_var f) of
        Inl e \<Rightarrow> Inl e
      | Inr size_args \<Rightarrow>
          (let sel = selected_types (type_pdf_var f) (type_text_var f) (type_images_var f);
               out = strip (out_var f)
           in Inr \<lparr>common_args = base_cmd f @ size_args
                       @ (if js_var f then [''--js''] else [])
                       @ flaresolverr_args f @ crawl_args f
                       @ (if keep_awake_var f then [''--keep-awake''] else []),
                    out_dir = (if out \<noteq> [] then out else ''output''),
                    delay = delay_str f,
                    types_args = (if sel \<noteq> [] \<and> length sel < 3 then ''--types'' # sel else []),
                    done_script = strip (done_script_var f)\<rparr>))"

definition build_cmd :: "locals \<Rightarrow> string list \<Rightarrow> bool \<Rightarrow> string list" where
  "build_cmd L url_list include_done_script =
     (let c = common_args L @ [''--url''] @ url_list
              @ [''--out-dir'', out_dir L, ''--delay'', delay L] @ types_args L
      in if include_done_script \<and> done_script L \<noteq> []
         then c @ [''--done-script'', done_script L]
         else c)"

section \<open>The Strigil front-end: shared state, workers and the poll loops\<close>

text \<open>
  An entry of \<open>output_queue\<close> is a line or the \<open>None\<close> sentinel.  A process handle is
  identified by a number.
\<close>

type_synonym event = "string option"
type_synonym proc = nat

text \<open>
  What \<open>subprocess.Popen\<close> and the read loop over \<open>proc.stdout\<close> do for one worker:
  \<open>Raises e\<close> when \<open>Popen\<close> raises an \<open>Exception\<close> with text \<open>e\<close>; \<open>Child p ls x\<close> when it
  returns handle \<open>p\<close>, the stream yields the lines \<open>ls\<close> and then closes (\<open>x = None\<close>) or
  the read raises an \<open>Exception\<close> with text \<open>e\<close> (\<open>x = Some e\<close>).
\<close>

datatype popen_result = Raises string | Child proc "string list" "string option"

text \<open>
  The surroundings of a run: \<open>os.path.abspath\<close>; the two groups of
  \<open>re.search(r"  \[(\d+)/(\d+)\]", line)\<close> (\<open>None\<close> for no match); whether
  \<open>subprocess.run(cmd, shell=True, check=False)\<close> raises an \<open>Exception\<close>; and what the
  \<open>Popen\<close> call of worker \<open>i\<close> does.
\<close>

record env =
  abspath :: "string \<Rightarrow> string"
  re_search :: "string \<Rightarrow> (string \<times> string) option"
  subprocess_run :: "string \<Rightarrow> string option"
  popen :: "nat \<Rightarrow> string list \<Rightarrow> popen_result"

text \<open>
  The steps of a worker thread that other threads can observe, in program order.
\<close>

datatype wact =
    Popen "string list"
  | SetProc proc
  | ClearProc
  | AppendProc proc
  | Put event

text \<open>
  The variables of \<open>main\<close> shared by the callbacks (\<open>output_queue\<close>, \<open>current_proc[0]\<close>,
  \<open>current_procs\<close>, the two status variables, the log widget's text, whether each button
  is enabled), the variables of the running \<open>run_scrape\<close> call (\<open>scrape_counts\<close> as
  (pdf, text, images), \<open>parallel_done_count[0]\<close>, \<open>run_parallel\<close>, \<open>num_urls\<close>, the locals
  read by \<open>build_cmd\<close>), the remaining steps of each worker thread, and whether a poll
  is scheduled.  Four fields are histories, not program variables: \<open>popen_calls\<close>
  (every argv given to \<open>Popen\<close>), \<open>terminate_calls\<close> (every handle \<open>terminate()\<close> was
  called on), \<open>shell_runs\<close> (every command given to \<open>subprocess.run\<close>) and \<open>dequeued\<close>
  (every value \<open>get_nowait\<close> returned to the run's poll loop).
\<close>

record app =
  output_queue :: "event list"
  current_proc :: "proc option"
  current_procs :: "proc list"
  state_var :: string
  progress_var :: string
  log_text :: string
  scrape_btn :: bool
  stop_btn :: bool
  scrape_counts :: "int \<times> int \<times> int"
  parallel_done_count :: int
  run_parallel :: bool
  num_urls :: int
  run_locals :: locals
  threads :: "wact list list"
  poll_scheduled :: bool
  popen_calls :: "string list list"
  terminate_calls :: "proc list"
  shell_runs :: "string list"
  dequeued :: "event list"

subsection \<open>Workers\<close>

definition error_line :: "string \<Rightarrow> string" where
  "error_line e = ''Error: '' @ e @ newline"

text \<open>\<open>worker\<close> of the sequential branch.\<close>

definition worker :: "string list \<Rightarrow> popen_result \<Rightarrow> wact list" where
  "worker cmd r =
     (case r of
        Raises e \<Rightarrow> [Popen cmd, Put (Some (error_line e)), ClearProc, Put None]
      | Child p ls x \<Rightarrow>
          [Popen cmd, SetProc p] @ map (\<lambda>l. Put (Some l)) ls
          @ (case x of Some e \<Rightarrow> [Put (Some (error_line e))] | None \<Rightarrow> [])
          @ [ClearProc, Put None])"

definition label :: "int \<Rightarrow> int \<Rightarrow> string" where
  "label idx n = ''['' @ str_int (idx + 1) @ ''/'' @ str_int n @ ''] ''"

text \<open>\<open>parallel_worker\<close>; \<open>n\<close> is \<open>num_urls\<close>.\<close>

definition parallel_worker :: "int \<Rightarrow> int \<Rightarrow> string list \<Rightarrow> popen_result \<Rightarrow> wact list" where
  "parallel_worker idx n cmd r =
     (case r of
        Raises e \<Rightarrow> [Popen cmd, Put (Some (label idx n @ error_line e)), Put None]
      | Child p ls x \<Rightarrow>
          [Popen cmd, AppendProc p] @ map (\<lambda>l. Put (Some (label idx n @ l))) ls
          @ (case x of Some e \<Rightarrow> [Put (Some (label idx n @ error_line e))] | None \<Rightarrow> [])
          @ [Put None])"

fun do_wact :: "wact \<Rightarrow> app \<Rightarrow> app" where
  "do_wact (Popen cmd) s = s\<lparr>popen_calls := popen_calls s @ [cmd]\<rparr>"
| "do_wact (SetProc p) s = s\<lparr>current_proc := Some p\<rparr>"
| "do_wact ClearProc s = s\<lparr>current_proc := None\<rparr>"
| "do_wact (AppendProc p) s = s\<lparr>current_procs := current_procs s @ [p]\<rparr>"
| "do_wact (Put e) s = s\<lparr>output_queue := output_queue s @ [e]\<rparr>"

subsection \<open>Progress interpreter\<close>

definition append_log :: "string \<Rightarrow> app \<Rightarrow> app" where
  "append_log line s = s\<lparr>log_text := log_text s @ line\<rparr>"

definition set_progress :: "string \<Rightarrow> bool \<Rightarrow> app \<Rightarrow> app" where
  "set_progress msg finished s =
     s\<lparr>state_var := (if finished then ''Finished'' else ''Running''), progress_var := msg\<rparr>"

definition counts_msg :: "int \<times> int \<times> int \<Rightarrow> string" where
  "counts_msg c =
     (case c of (pdf, text, images) \<Rightarrow>
        str_int pdf @ '' PDFs, '' @ str_int text @ '' texts, '' @ str_int images @ '' images'')"

definition update_status :: "env \<Rightarrow> string \<Rightarrow> app \<Rightarrow> app" where
  "update_status E line s =
     (if contains ''Running:'' line \<or> contains ''Scrape:'' line \<or> contains ''Iteration'' line
      then set_progress (''Starting'' @ ellipsis) False s
      else if contains ''Found:'' line
      then set_progress (''Mapping done '' @ em_dash @ '' downloading'' @ ellipsis) False s
      else if contains (right_arrow @ '' Downloading'') line
      then set_progress (''Downloading'' @ ellipsis) False s
      else if contains ''  ['' line \<and> contains ''/'' line \<and> contains ''] '' line
      then (case re_search E line of
              Some (g1, g2) \<Rightarrow> set_progress (g1 @ ''/'' @ g2 @ '' assets'') False s
            | None \<Rightarrow> s)
      else if contains ''  Text:'' line
      then (case scrape_counts s of (pdf, text, images) \<Rightarrow>
              let s' = s\<lparr>scrape_counts := (pdf, text + 1, images)\<rparr>
              in set_progress (counts_msg (scrape_counts s')) False s')
      else if contains ''  Image:'' line
      then (case scrape_counts s of (pdf, text, images) \<Rightarrow>
              let s' = s\<lparr>scrape_counts := (pdf, text, images + 1)\<rparr>
              in set_progress (counts_msg (scrape_counts s')) False s')
      else if contains ''  PDF:'' line
      then (case scrape_counts s of (pdf, text, images) \<Rightarrow>
              let s' = s\<lparr>scrape_counts := (pdf + 1, text, images)\<rparr>
              in set_progress (counts_msg (scrape_counts s')) False s')
      else if contains ''Done.'' line
      then set_progress (counts_msg (scrape_counts s)) True s
      else s)"

text \<open>
  A model of the search for lines whose decimal digits are all ASCII (\<open>\d\<close> also matches
  the other Unicode decimal digits): the leftmost place where two spaces, \<open>[\<close>, digits,
  \<open>/\<close>, digits and \<open>]\<close> follow one another.
\<close>

definition is_digit :: "char \<Rightarrow> bool" where
  "is_digit c = (c \<in> set ''0123456789'')"

definition match_counter :: "string \<Rightarrow> (string \<times> string) option" where
  "match_counter s =
     (if startswith s ''  [''
      then (let r1 = drop 3 s; g1 = takeWhile is_digit r1; r2 = dropWhile is_digit r1
            in if g1 \<noteq> [] \<and> startswith r2 ''/''
               then (let r3 = drop 1 r2; g2 = takeWhile is_digit r3; r4 = dropWhile is_digit r3
                     in if g2 \<noteq> [] \<and> startswith r4 '']'' then Some (g1, g2) else None)
               else None)
      else None)"

fun search_counter :: "string \<Rightarrow> (string \<times> string) option" where
  "search_counter [] = None"
| "search_counter (c # cs) =
     (case match_counter (c # cs) of Some g \<Rightarrow> Some g | None \<Rightarrow> search_counter cs)"

text \<open>The callback scheduled for each line: \<open>(append_log(l), update_status(l))\<close>.\<close>

definition show_line :: "env \<Rightarrow> string \<Rightarrow> app \<Rightarrow> app" where
  "show_line E l s = update_status E l (append_log l s)"

subsection \<open>Done script, poll loops and Stop\<close>

text \<open>
  \<open>run_done_script_async\<close>: the \<open>try\<close> runs the command, and \<open>except Exception: pass\<close>
  makes both outcomes return normally.
\<close>

definition run_done_script_async :: "env \<Rightarrow> string \<Rightarrow> string \<Rightarrow> app \<Rightarrow> app" where
  "run_done_script_async E script out s =
     (if script = [] then s
      else
        let cmd = replace (strip script) ''{out_dir}'' (abspath E out);
            s' = s\<lparr>shell_runs := shell_runs s @ [cmd]\<rparr>
        in case subprocess_run E cmd of
             None \<Rightarrow> s'
           | Some e \<Rightarrow> s')"

text \<open>
  The \<open>while True\<close> loop of \<open>poll_queue_parallel\<close> over the queue's contents; the empty
  queue is \<open>queue.Empty\<close>.  Callbacks scheduled with \<open>root.after(0, ...)\<close> run in the order
  they were scheduled, before the next timer tick; the model runs each where it is scheduled.
\<close>

fun drain_parallel :: "env \<Rightarrow> event list \<Rightarrow> app \<Rightarrow> app" where
  "drain_parallel E [] s = s\<lparr>output_queue := []\<rparr>"
| "drain_parallel E (None # q) s =
     (let s' = s\<lparr>parallel_done_count := parallel_done_count s + 1,
                 dequeued := dequeued s @ [None]\<rparr>
      in if parallel_done_count s' \<ge> num_urls s' then s'\<lparr>output_queue := q\<rparr>
         else drain_parallel E q s')"
| "drain_parallel E (Some l # q) s =
     drain_parallel E q (show_line E l (s\<lparr>dequeued := dequeued s @ [Some l]\<rparr>))"

definition poll_queue_parallel :: "env \<Rightarrow> app \<Rightarrow> app" where
  "poll_queue_parallel E s =
     (let s1 = drain_parallel E (output_queue s) s in
      if parallel_done_count s1 \<ge> num_urls s1
      then (let s2 = (if done_script (run_locals s1) \<noteq> []
                      then run_done_script_async E (done_script (run_locals s1))
                             (out_dir (run_locals s1)) s1
                      else s1)
            in s2\<lparr>stop_btn := False, scrape_btn := True, poll_scheduled := False\<rparr>)
      else s1\<lparr>poll_scheduled := True\<rparr>)"

text \<open>The loop of the sequential \<open>poll_queue\<close>, returning \<open>saw_done\<close>.\<close>

fun drain :: "env \<Rightarrow> event list \<Rightarrow> app \<Rightarrow> bool \<times> app" where
  "drain E [] s = (False, s\<lparr>output_queue := []\<rparr>)"
| "drain E (None # q) s = (True, s\<lparr>output_queue := q, dequeued := dequeued s @ [None]\<rparr>)"
| "drain E (Some l # q) s = drain E q (show_line E l (s\<lparr>dequeued := dequeued s @ [Some l]\<rparr>))"

definition poll_queue :: "env \<Rightarrow> app \<Rightarrow> app" where
  "poll_queue E s =
     (case drain E (output_queue s) s of
        (saw_done, s1) \<Rightarrow>
          if saw_done then s1\<lparr>stop_btn := False, scrape_btn := True, poll_scheduled := False\<rparr>
          else s1\<lparr>poll_scheduled := True\<rparr>)"

text \<open>
  \<open>do_stop\<close>.  \<open>terminate()\<close> is recorded in \<open>terminate_calls\<close>; an \<open>Exception\<close> it raises is
  caught and dropped by the handler, so the call has no other outcome.
\<close>

definition do_stop :: "app \<Rightarrow> app" where
  "do_stop s =
     (let procs = current_procs s;
          s1 = s\<lparr>current_procs := []\<rparr>;
          s2 = s1\<lparr>terminate_calls := terminate_calls s1 @ procs\<rparr>;
          s3 = (case current_proc s2 of
                  Some p \<Rightarrow> s2\<lparr>terminate_calls := terminate_calls s2 @ [p],
                               output_queue := output_queue s2 @ [None]\<rparr>
                | None \<Rightarrow> s2)
      in s3\<lparr>state_var := ''Stopped'', progress_var := em_dash\<rparr>)"

subsection \<open>\<open>run_scrape\<close>\<close>

definition en_dash :: string where
  "en_dash = [CHR 0xE2, CHR 0x80, CHR 0x93]"

fun join_str :: "string \<Rightarrow> string list \<Rightarrow> string" where
  "join_str sep [] = []"
| "join_str sep [x] = x"
| "join_str sep (x # y # ys) = x @ sep @ join_str sep (y # ys)"

definition log_size_filter :: "form \<Rightarrow> app \<Rightarrow> app" where
  "log_size_filter f s =
     (let parts = (if size_small_var f then [''Small (< 100 KB)''] else [])
                  @ (if size_medium_var f then [''Medium (100 KB'' @ en_dash @ ''1 MB)''] else [])
                  @ (if size_large_var f then [''Large (> 1 MB)''] else [])
      in append_log (''Size: '' @ (if parts \<noteq> [] then join_str '', '' parts else ''none'')
                     @ newline) s)"

text \<open>
  The parallel branch up to the first call of \<open>poll_queue_parallel\<close>: one thread per URL,
  in the order of \<open>enumerate(urls)\<close>.  The call that ends the branch is the first tick of
  the run, so that the threads just started may already have put events.
\<close>

definition start_parallel :: "env \<Rightarrow> form \<Rightarrow> locals \<Rightarrow> string list \<Rightarrow> app \<Rightarrow> app" where
  "start_parallel E f L urls s =
     (let n = int (length urls);
          s1 = s\<lparr>current_procs := [], num_urls := n, parallel_done_count := 0,
                 run_parallel := True, run_locals := L, dequeued := []\<rparr>;
          s2 = log_size_filter f s1;
          s3 = append_log (''Running '' @ str_int n @ '' URLs in parallel.'' @ newline @ newline) s2
      in s3\<lparr>stop_btn := True,
             threads := map (\<lambda>(i, u). parallel_worker (int i) n (build_cmd L [u] False)
                                         (popen E i (build_cmd L [u] False)))
                            (enumerate 0 urls),
             poll_scheduled := True\<rparr>)"

text \<open>The sequential branch up to the first call of \<open>poll_queue\<close>.\<close>

definition start_sequential :: "env \<Rightarrow> form \<Rightarrow> locals \<Rightarrow> string list \<Rightarrow> app \<Rightarrow> app" where
  "start_sequential E f L urls s =
     (let cmd = build_cmd L urls True;
          s1 = s\<lparr>run_parallel := False, run_locals := L, dequeued := []\<rparr>;
          s2 = log_size_filter f s1;
          s3 = append_log (''Running: '' @ join_str '' '' cmd @ newline @ newline) s2
      in s3\<lparr>stop_btn := True, threads := [worker cmd (popen E 0 cmd)], poll_scheduled := True\<rparr>)"

text \<open>
  \<open>run_scrape\<close>.  Saving the URL text for the next launch is file output and is left out.
\<close>

definition run_scrape :: "env \<Rightarrow> form \<Rightarrow> app \<Rightarrow> py_error + app" where
  "run_scrape E f s =
     (let urls = filter (\<lambda>l. l \<noteq> []) (map strip (url_lines f)) in
      if urls = []
      then Inr (append_log (''Error: At least one URL is required.'' @ newline) s)
      else
        let s1 = s\<lparr>scrape_btn := False, state_var := ''Running'', progress_var := em_dash,
                   scrape_counts := (0, 0, 0)\<rparr>;
            parallel = (urls_mode_var f = ''parallel'' \<and> length urls > 1)
        in if selected_types (type_pdf_var f) (type_text_var f) (type_images_var f) = []
           then Inr ((append_log (''Error: Select at least one file type.'' @ newline) s1)
                       \<lparr>state_var := ''Idle'', progress_var := em_dash, scrape_btn := True\<rparr>)
           else
             case run_scrape_locals f of
               Inl e \<Rightarrow> Inl e
             | Inr L \<Rightarrow>
                 Inr (if parallel then start_parallel E f L urls s1
                      else start_sequential E f L urls s1))"

subsection \<open>Interleavings\<close>

text \<open>
  What can happen next while a run is under way: worker thread \<open>i\<close> performs its next
  step, the timer fires the scheduled poll, or the user clicks Stop (the button invokes
  \<open>do_stop\<close> only while it is enabled).  A schedule is any list of such steps.  The
  lines of a \<open>Child\<close> are the lines its reader gets before the stream ends, whether the
  child ran to its end or was terminated, so every run of the program is a schedule of
  some \<open>popen\<close>.
\<close>

datatype step = Thread nat | Tick | Click_stop

definition thread_step :: "nat \<Rightarrow> app \<Rightarrow> app" where
  "thread_step i s =
     (if i < length (threads s)
      then (case threads s ! i of
              [] \<Rightarrow> s
            | a # rest \<Rightarrow> (do_wact a s)\<lparr>threads := (threads s)[i := rest]\<rparr>)
      else s)"

definition tick :: "env \<Rightarrow> app \<Rightarrow> app" where
  "tick E s =
     (if poll_scheduled s
      then (if run_parallel s then poll_queue_parallel E s else poll_queue E s)
      else s)"

fun exec_step :: "env \<Rightarrow> step \<Rightarrow> app \<Rightarrow> app" where
  "exec_step E (Thread i) s = thread_step i s"
| "exec_step E Tick s = tick E s"
| "exec_step E Click_stop s = (if stop_btn s then do_stop s else s)"

definition exec :: "env \<Rightarrow> step list \<Rightarrow> app \<Rightarrow> app" where
  "exec E sched s = fold (exec_step E) sched s"

text \<open>The state \<open>main\<close> sets up before the event loop starts.\<close>

definition init_app :: app where
  "init_app =
     \<lparr>output_queue = [], current_proc = None, current_procs = [],
      state_var = ''Idle'', progress_var = em_dash, log_text = [],
      scrape_btn = True, stop_btn = False, scrape_counts = (0, 0, 0),
      parallel_done_count = 0, run_parallel = False, num_urls = 0,
      run_locals = \<lparr>common_args = [], out_dir = [], delay = [], types_args = [],
                     done_script = []\<rparr>,
      threads = [], poll_scheduled = False, popen_calls = [], terminate_calls = [],
      shell_runs = [], dequeued = []\<rparr>"

section \<open>Events and invariants of a run\<close>

text \<open>
  The events a list of worker steps puts on the queue, the events the threads of a state
  have still to put, and the number of \<open>None\<close> sentinels in a list of events.
\<close>

fun put_of :: "wact \<Rightarrow> event list" where
  "put_of (Put e) = [e]"
| "put_of _ = []"

definition puts :: "wact list \<Rightarrow> event list" where
  "puts acts = concat (map put_of acts)"

definition pending :: "app \<Rightarrow> event list" where
  "pending s = concat (map puts (threads s))"

definition sentinels :: "event list \<Rightarrow> nat" where
  "sentinels evs = count_list evs None"

text \<open>
  The sentinels put so far in a run (taken off the queue by its poll loop or still on the
  queue) together with those its threads have still to put.
\<close>

definition total_sentinels :: "app \<Rightarrow> nat" where
  "total_sentinels s = sentinels (dequeued s @ output_queue s) + sentinels (pending s)"

text \<open>
  What holds between the steps of a sequential run: its poll loop has seen no sentinel
  while a poll is scheduled, and one at most afterwards.
\<close>

definition seq_inv :: "app \<Rightarrow> bool" where
  "seq_inv s =
     (\<not> run_parallel s
      \<and> (if poll_scheduled s then sentinels (dequeued s) = 0 else sentinels (dequeued s) \<le> 1))"

text \<open>
  The commands \<open>run_done_script_async\<close> gives to the shell for the locals of a run, and
  what holds between the steps of a parallel run of \<open>N\<close> URLs that started with the shell
  history \<open>runs\<close>.
\<close>

definition done_script_cmd :: "env \<Rightarrow> locals \<Rightarrow> string list" where
  "done_script_cmd E L =
     (if done_script L = [] then []
      else [replace (strip (done_script L)) ''{out_dir}'' (abspath E (out_dir L))])"

definition par_inv :: "env \<Rightarrow> nat \<Rightarrow> locals \<Rightarrow> string list \<Rightarrow> app \<Rightarrow> bool" where
  "par_inv E N L runs s =
     (run_parallel s \<and> num_urls s = int N \<and> run_locals s = L
      \<and> parallel_done_count s = int (sentinels (dequeued s))
      \<and> (if poll_scheduled s
          then sentinels (dequeued s) < N \<and> stop_btn s \<and> \<not> scrape_btn s \<and> shell_runs s = runs
          else sentinels (dequeued s) = N \<and> \<not> stop_btn s \<and> scrape_btn s
               \<and> shell_runs s = runs @ done_script_cmd E L))"

section \<open>The specification's wording of the size rules\<close>

text \<open>
  The three size ranges with their byte boundaries, and the union of a selection collapsed
  to one interval: the smallest selected lower bound, and the largest selected upper bound
  where \<open>None\<close> is "unbounded".  An empty selection has no interval.
\<close>

datatype size_range = Small | Medium | Large

fun lower_bound :: "size_range \<Rightarrow> int" where
  "lower_bound Small = 0"
| "lower_bound Medium = 100 * 1024"
| "lower_bound Large = 1024 * 1024"

fun upper_bound :: "size_range \<Rightarrow> int option" where
  "upper_bound Small = Some (100 * 1024)"
| "upper_bound Medium = Some (1024 * 1024)"
| "upper_bound Large = None"

fun sup_bound :: "int option \<Rightarrow> int option \<Rightarrow> int option" where
  "sup_bound (Some a) (Some b) = Some (max a b)"
| "sup_bound _ _ = None"

definition selected_ranges :: "bool \<Rightarrow> bool \<Rightarrow> bool \<Rightarrow> size_range list" where
  "selected_ranges small medium large =
     (if small then [Small] else []) @ (if medium then [Medium] else [])
       @ (if large then [Large] else [])"

definition union_interval :: "size_range list \<Rightarrow> (int \<times> int option) option" where
  "union_interval rs =
     (case rs of
        [] \<Rightarrow> None
      | r # rest \<Rightarrow>
          Some (fold (\<lambda>x lo. min (lower_bound x) lo) rest (lower_bound r),
                fold (\<lambda>x hi. sup_bound (upper_bound x) hi) rest (upper_bound r)))"

text \<open>
  The arguments for an interval: no \<open>--min-image-size\<close> for a minimum of 0, no
  \<open>--max-image-size\<close> for an unbounded maximum; \<open>fmt\<close> renders a byte count.
\<close>

definition interval_args :: "(int \<Rightarrow> string) \<Rightarrow> (int \<times> int option) option \<Rightarrow> string list" where
  "interval_args fmt iv =
     (case iv of
        None \<Rightarrow> []
      | Some (lo, hi) \<Rightarrow>
          (if lo = 0 then [] else [''--min-image-size'', fmt lo])
          @ (case hi of None \<Rightarrow> [] | Some h \<Rightarrow> [''--max-image-size'', fmt h]))"

text \<open>
  The rendering of a byte count by multiples, as the specification words it: a multiple of
  1 MiB as \<open><n/1MiB>m\<close>, another multiple of 1 KiB as \<open><n/1KiB>k\<close>, anything else as digits.
\<close>

definition size_arg_by_multiples :: "int \<Rightarrow> string" where
  "size_arg_by_multiples n =
     (if n mod (1024 * 1024) = 0 then str_int (n div (1024 * 1024)) @ ''m''
      else if n mod 1024 = 0 then str_int (n div 1024) @ ''k''
      else str_int n)"

section \<open>The priority list of progress patterns\<close>

text \<open>
  The eight tests of the \<open>elif\<close> chain in the order of the specification's list, the
  number of tests that fail before the first one that holds (8 when none holds), and what
  each pattern does to the state (the ninth entry: nothing).
\<close>

definition pattern_tests :: "string \<Rightarrow> bool list" where
  "pattern_tests line =
     [contains ''Running:'' line \<or> contains ''Scrape:'' line \<or> contains ''Iteration'' line,
      contains ''Found:'' line,
      contains (right_arrow @ '' Downloading'') line,
      contains ''  ['' line \<and> contains ''/'' line \<and> contains ''] '' line,
      contains ''  Text:'' line,
      contains ''  Image:'' line,
      contains ''  PDF:'' line,
      contains ''Done.'' line]"

definition first_match :: "string \<Rightarrow> nat" where
  "first_match line = length (takeWhile Not (pattern_tests line))"

definition pattern_effects :: "env \<Rightarrow> string \<Rightarrow> app \<Rightarrow> app list" where
  "pattern_effects E line s =
     (case scrape_counts s of (pdf, text, images) \<Rightarrow>
       [s\<lparr>state_var := ''Running'', progress_var := ''Starting'' @ ellipsis\<rparr>,
        s\<lparr>state_var := ''Running'',
          progress_var := ''Mapping done '' @ em_dash @ '' downloading'' @ ellipsis\<rparr>,
        s\<lparr>state_var := ''Running'', progress_var := ''Downloading'' @ ellipsis\<rparr>,
        (case re_search E line of
           Some (i, n) \<Rightarrow> s\<lparr>state_var := ''Running'', progress_var := i @ ''/'' @ n @ '' assets''\<rparr>
         | None \<Rightarrow> s),
        s\<lparr>scrape_counts := (pdf, text + 1, images), state_var := ''Running'',
          progress_var := counts_msg (pdf, text + 1, images)\<rparr>,
        s\<lparr>scrape_counts := (pdf, text, images + 1), state_var := ''Running'',
          progress_var := counts_msg (pdf, text, images + 1)\<rparr>,
        s\<lparr>scrape_counts := (pdf + 1, text, images), state_var := ''Running'',
          progress_var := counts_msg (pdf + 1, text, images)\<rparr>,
        s\<lparr>state_var := ''Finished'', progress_var := counts_msg (pdf, text, images)\<rparr>,
        s])"

section \<open>Values that reach the command from outside the builder\<close>

text \<open>
  The entries of an argv that the builder copies from the form or the environment rather
  than writing itself, and the option names the builder writes besides \<open>--types\<close> and
  \<open>--done-script\<close>.
\<close>

definition user_values :: "form \<Rightarrow> locals \<Rightarrow> string list \<Rightarrow> bool \<Rightarrow> string list" where
  "user_values f L urls inc =
     base_cmd f
     @ (if flaresolverr_var f \<and> strip (flaresolverr_url_var f) \<noteq> []
        then [strip (flaresolverr_url_var f)] else [])
     @ urls @ [out_dir L, delay L]
     @ (if inc \<and> done_script L \<noteq> [] then [done_script L] else [])"

definition builder_flags :: "string set" where
  "builder_flags = {''--min-image-size'', ''--max-image-size'', ''--js'', ''--flaresolverr'',
     ''--crawl'', ''--max-depth'', ''--workers'', ''--same-domain-only'', ''--keep-awake'',
     ''--url'', ''--out-dir'', ''--delay''}"

section \<open>Sample inputs\<close>

definition demo_form :: form where
  "demo_form =
     \<lparr>url_lines = ['' http://a '', [], ''http://b''], urls_mode_var = ''parallel'',
      out_var = '' out '', done_script_var = '' echo {out_dir} '',
      type_pdf_var = True, type_text_var = False, type_images_var = True,
      size_small_var = False, size_medium_var = True, size_large_var = False,
      delay_str = ''0.5'', depth_var = None, workers_var = Some 40, js_var = True,
      flaresolverr_var = True, flaresolverr_url_var = '' '', crawl_var = True,
      same_domain_var = True, keep_awake_var = False,
      base_cmd = [''python'', ''-m'', ''strigil.cli'']\<rparr>"

definition demo_ws_form :: ws_form where
  "demo_ws_form =
     \<lparr>ws_url_var = '' http://a '', ws_out_var = [], ws_delay_str = ''1.0'',
      ws_depth_var = Some 3, ws_type_pdf_var = False, ws_type_text_var = True,
      ws_type_images_var = False, ws_size_small_var = True, ws_size_medium_var = True,
      ws_size_large_var = False, ws_crawl_var = True, ws_same_domain_var = False,
      ws_base = [''python'', ''-m'', ''web_scraper.cli'']\<rparr>"

definition demo_env :: env where
  "demo_env =
     \<lparr>abspath = (\<lambda>p. ''/home/u/'' @ p),
      re_search = search_counter,
      subprocess_run = (\<lambda>c. Some ''exit status 1''),
      popen = (\<lambda>i cmd. if i = 0 then Child 7 [''Found: 2 items'' @ newline, ''  PDF: x'' @ newline] None
                          else Raises ''No such file'')\<rparr>"

definition demo_locals :: locals where
  "demo_locals =
     \<lparr>common_args = [''strigil''], out_dir = ''out'', delay = ''0.5'', types_args = [],
      done_script = ''echo {out_dir}''\<rparr>"

definition demo_running :: app where
  "demo_running =
     exec demo_env [Thread 0, Thread 0]
       (start_sequential demo_env demo_form demo_locals [''http://a''] init_app)"

definition demo_stopped :: app where
  "demo_stopped =
     exec demo_env (Click_stop # [Thread 0, Thread 0, Thread 0, Thread 0, Tick]) demo_running"

definition demo_schedule :: "step list" where
  "demo_schedule =
     [Thread 0, Thread 1, Tick, Thread 0, Thread 0, Thread 1, Thread 0, Thread 1, Tick,
      Thread 0, Tick]"

definition demo_parallel :: app where
  "demo_parallel =
     (case run_scrape demo_env demo_form init_app of Inr s \<Rightarrow> s | Inl e \<Rightarrow> init_app)"

section \<open>Properties of the string functions\<close>

lemma str_nat_nonempty: "str_nat n \<noteq> []"
  by (subst str_nat.simps) simp

lemma digit_char_is_digit: "d < 10 \<Longrightarrow> digit_char d \<in> set ''0123456789''"
proof -
  assume "d < 10"
  then have "d \<in> {0, 1, 2, 3, 4, 5, 6, 7, 8, 9}" by auto
  then show ?thesis by (auto simp: digit_char_def)
qed

lemma str_nat_digits: "set (str_nat n) \<subseteq> set ''0123456789''"
proof (induction n rule: str_nat.induct)
  case (1 n)
  show ?case
  proof (cases "n < 10")
    case True
    then show ?thesis
      using digit_char_is_digit [of n] by (subst str_nat.simps) simp
  next
    case False
    have "n mod 10 < 10" by simp
    then have "digit_char (n mod 10) \<in> set ''0123456789''"
      by (rule digit_char_is_digit)
    with False "1.IH" show ?thesis
      by (subst str_nat.simps) simp
  qed
qed

lemma digit_value_digit_char: "d < 10 \<Longrightarrow> digit_value (digit_char d) = d"
proof -
  assume "d < 10"
  then have "d \<in> {0, 1, 2, 3, 4, 5, 6, 7, 8, 9}" by auto
  then show ?thesis by (auto simp: digit_char_def digit_value_def)
qed

text \<open>\<open>str_nat\<close> writes decimal notation: reading the digits back gives the number.\<close>

lemma decimal_value_str_nat: "decimal_value (str_nat n) = n"
proof (induction n rule: str_nat.induct)
  case (1 n)
  show ?case
  proof (cases "n < 10")
    case True
    then show ?thesis
      by (subst str_nat.simps) (simp add: decimal_value_def digit_value_digit_char)
  next
    case False
    then have "decimal_value (str_nat (n div 10)) = n div 10"
      using "1.IH" by simp
    then have "decimal_value (str_nat (n div 10) @ [digit_char (n mod 10)]) = n"
      by (simp add: decimal_value_def digit_value_digit_char)
    with False show ?thesis
      by (subst str_nat.simps) simp
  qed
qed

lemma str_int_nonneg: "0 \<le> i \<Longrightarrow> str_int i = str_nat (nat i)"
  by (simp add: str_int_def)

lemma str_int_not_dashes: "\<not> startswith (str_int i) ''--''"
proof (cases "i < 0")
  case True
  obtain c cs where cs: "str_nat (nat (- i)) = c # cs"
    using str_nat_nonempty [of "nat (- i)"] by (cases "str_nat (nat (- i))") auto
  have "c \<in> set ''0123456789''"
    using str_nat_digits [of "nat (- i)"] cs by auto
  then have "c \<noteq> CHR ''-''" by auto
  with True cs show ?thesis
    by (simp add: str_int_def startswith_def)
next
  case False
  obtain c cs where cs: "str_nat (nat i) = c # cs"
    using str_nat_nonempty [of "nat i"] by (cases "str_nat (nat i)") auto
  have "c \<in> set ''0123456789''"
    using str_nat_digits [of "nat i"] cs by auto
  then have "c \<noteq> CHR ''-''" by auto
  with False cs show ?thesis
    by (simp add: str_int_def startswith_def)
qed

section \<open>Size arguments\<close>

lemma size_to_arg_eq: "ws_size_to_arg n = size_to_arg n"
  by (simp add: ws_size_to_arg_def size_to_arg_def)

lemmas size_eval =
  size_to_arg_def ws_size_to_arg_def str_int_def str_nat.simps digit_char_def
  SIZE_SMALL_MAX_def SIZE_MEDIUM_MIN_def SIZE_MEDIUM_MAX_def SIZE_LARGE_MIN_def
  size_bounds_def py_min_def py_max_def

lemma image_size_args_cases:
  "image_size_args False False False = Inr []"
  "image_size_args True False False = Inr [''--max-image-size'', ''100k'']"
  "image_size_args False True False =
     Inr [''--min-image-size'', ''100k'', ''--max-image-size'', ''1m'']"
  "image_size_args False False True = Inr [''--min-image-size'', ''1m'']"
  "image_size_args True True False = Inr [''--max-image-size'', ''1m'']"
  "image_size_args True False True = Inr []"
  "image_size_args False True True = Inr [''--min-image-size'', ''100k'']"
  "image_size_args True True True = Inr []"
  by (simp_all add: image_size_args_def size_eval)

lemma ws_size_args_eq: "ws_size_args small medium large = image_size_args small medium large"
  by (cases small; cases medium; cases large)
     (simp_all add: ws_size_args_def image_size_args_def size_eval)

lemma interval_args_cases:
  "interval_args size_to_arg (union_interval (selected_ranges False False False)) = []"
  "interval_args size_to_arg (union_interval (selected_ranges True False False)) =
     [''--max-image-size'', ''100k'']"
  "interval_args size_to_arg (union_interval (selected_ranges False True False)) =
     [''--min-image-size'', ''100k'', ''--max-image-size'', ''1m'']"
  "interval_args size_to_arg (union_interval (selected_ranges False False True)) =
     [''--min-image-size'', ''1m'']"
  "interval_args size_to_arg (union_interval (selected_ranges True True False)) =
     [''--max-image-size'', ''1m'']"
  "interval_args size_to_arg (union_interval (selected_ranges True False True)) = []"
  "interval_args size_to_arg (union_interval (selected_ranges False True True)) =
     [''--min-image-size'', ''100k'']"
  "interval_args size_to_arg (union_interval (selected_ranges True True True)) = []"
  by (simp_all add: interval_args_def union_interval_def selected_ranges_def size_eval)

lemma image_size_args_interval:
  "image_size_args small medium large =
     Inr (interval_args size_to_arg (union_interval (selected_ranges small medium large)))"
  by (cases small; cases medium; cases large)
     (simp_all only: image_size_args_cases interval_args_cases)

lemma run_scrape_locals_eq:
  "run_scrape_locals f =
     Inr \<lparr>common_args =
            base_cmd f
            @ interval_args size_to_arg
                (union_interval
                   (selected_ranges (size_small_var f) (size_medium_var f) (size_large_var f)))
            @ (if js_var f then [''--js''] else [])
            @ flaresolverr_args f @ crawl_args f
            @ (if keep_awake_var f then [''--keep-awake''] else []),
          out_dir = (if strip (out_var f) \<noteq> [] then strip (out_var f) else ''output''),
          delay = delay_str f,
          types_args =
            (if selected_types (type_pdf_var f) (type_text_var f) (type_images_var f) \<noteq> []
                \<and> length (selected_types (type_pdf_var f) (type_text_var f) (type_images_var f)) < 3
             then ''--types'' # selected_types (type_pdf_var f) (type_text_var f) (type_images_var f)
             else []),
          done_script = strip (done_script_var f)\<rparr>"
  by (simp add: run_scrape_locals_def image_size_args_interval Let_def)

text \<open>
  C1.  For every selection of the Small/Medium/Large boxes, \<open>_image_size_args\<close> (and the
  same lines of the basic scraper) returns, without raising, the arguments of the union of
  the selected ranges collapsed to one interval: \<open>--min-image-size\<close> with the smallest
  selected lower bound unless that is 0, then \<open>--max-image-size\<close> with the largest selected
  upper bound unless Large is selected; nothing for the empty selection.  Medium alone
  gives \<open>100k\<close> and \<open>1m\<close>, Small with Large gives no argument, and the arguments stand in
  the command right after its interpreter prefix.
\<close>

theorem image_size_args_union_rule:
  "image_size_args small medium large =
     Inr (interval_args size_to_arg (union_interval (selected_ranges small medium large)))
   \<and> ws_size_args small medium large =
     Inr (interval_args ws_size_to_arg (union_interval (selected_ranges small medium large)))
   \<and> image_size_args False True False =
     Inr [''--min-image-size'', ''100k'', ''--max-image-size'', ''1m'']
   \<and> image_size_args True False True = Inr []
   \<and> ws_size_args False True False =
     Inr [''--min-image-size'', ''100k'', ''--max-image-size'', ''1m'']
   \<and> ws_size_args True False True = Inr []
   \<and> (\<exists>L. run_scrape_locals f = Inr L
          \<and> common_args L =
              base_cmd f
              @ interval_args size_to_arg
                  (union_interval
                     (selected_ranges (size_small_var f) (size_medium_var f) (size_large_var f)))
              @ (if js_var f then [''--js''] else [])
              @ flaresolverr_args f @ crawl_args f
              @ (if keep_awake_var f then [''--keep-awake''] else []))"
proof -
  have fmt: "ws_size_to_arg = size_to_arg"
    by (rule ext) (rule size_to_arg_eq)
  have a: "image_size_args small medium large =
      Inr (interval_args size_to_arg (union_interval (selected_ranges small medium large)))"
    by (rule image_size_args_interval)
  have b: "ws_size_args small medium large =
      Inr (interval_args ws_size_to_arg (union_interval (selected_ranges small medium large)))"
    by (simp only: ws_size_args_eq fmt image_size_args_interval)
  have c: "image_size_args False True False =
      Inr [''--min-image-size'', ''100k'', ''--max-image-size'', ''1m'']"
    by (rule image_size_args_cases)
  have d: "image_size_args True False True = Inr []"
    by (rule image_size_args_cases)
  have e: "ws_size_args False True False =
      Inr [''--min-image-size'', ''100k'', ''--max-image-size'', ''1m'']"
    by (simp only: ws_size_args_eq image_size_args_cases)
  have g: "ws_size_args True False True = Inr []"
    by (simp only: ws_size_args_eq image_size_args_cases)
  have h: "\<exists>L. run_scrape_locals f = Inr L
          \<and> common_args L =
              base_cmd f
              @ interval_args size_to_arg
                  (union_interval
                     (selected_ranges (size_small_var f) (size_medium_var f) (size_large_var f)))
              @ (if js_var f then [''--js''] else [])
              @ flaresolverr_args f @ crawl_args f
              @ (if keep_awake_var f then [''--keep-awake''] else [])"
    by (simp add: run_scrape_locals_eq)
  from a b c d e g h show ?thesis by blast
qed

text \<open>
  C10.  With none of the three size boxes selected \<open>_image_size_args\<close> returns the empty
  list and does not raise: neither \<open>--min-image-size\<close> nor \<open>--max-image-size\<close> is emitted,
  exactly as with all three selected, and the commands built from the two forms are equal.
\<close>

theorem image_size_args_no_selection:
  "image_size_args False False False = Inr []
   \<and> image_size_args False False False = image_size_args True True True
   \<and> run_scrape_locals
        (f\<lparr>size_small_var := False, size_medium_var := False, size_large_var := False\<rparr>)
     = run_scrape_locals
        (f\<lparr>size_small_var := True, size_medium_var := True, size_large_var := True\<rparr>)"
  by (simp add: run_scrape_locals_def image_size_args_cases flaresolverr_args_def crawl_args_def)

text \<open>
  C8, as the code has it.  For every non-negative byte count \<open>n\<close>, \<open>_size_to_arg\<close> (both
  copies) renders \<open>n\<close> as the decimal digits of \<open>n div 1 MiB\<close> followed by \<open>m\<close> when
  \<open>n \<ge> 1 MiB\<close>, as the digits of \<open>n div 1 KiB\<close> followed by \<open>k\<close> when \<open>1 KiB \<le> n < 1 MiB\<close>,
  and as the digits of \<open>n\<close> when \<open>n < 1 KiB\<close>: the unit is chosen by size, and the quotient
  is rounded down.
\<close>

theorem size_to_arg_thresholds:
  assumes "0 \<le> n"
  shows "(1024 * 1024 \<le> n \<longrightarrow> size_to_arg n = str_nat (nat n div (1024 * 1024)) @ ''m'')
       \<and> (1024 \<le> n \<and> n < 1024 * 1024 \<longrightarrow> size_to_arg n = str_nat (nat n div 1024) @ ''k'')
       \<and> (n < 1024 \<longrightarrow> size_to_arg n = str_nat (nat n))
       \<and> ws_size_to_arg n = size_to_arg n"
proof -
  have m: "nat (n div (1024 * 1024)) = nat n div (1024 * 1024)"
    using assms by (simp add: nat_div_distrib)
  have k: "nat (n div 1024) = nat n div 1024"
    using assms by (simp add: nat_div_distrib)
  have "0 \<le> n div (1024 * 1024)" and "0 \<le> n div 1024"
    using assms by (simp_all add: pos_imp_zdiv_nonneg_iff)
  with m k assms show ?thesis
    by (simp add: size_to_arg_def ws_size_to_arg_def str_int_nonneg)
qed

theorem size_to_arg_thresholds_witness:
  "size_to_arg 3145728 = ''3m'' \<and> size_to_arg 102400 = ''100k'' \<and> size_to_arg 512 = ''512''
   \<and> ws_size_to_arg 1536 = ''1k''"
  using size_to_arg_thresholds [of 3145728] size_to_arg_thresholds [of 102400]
    size_to_arg_thresholds [of 512] size_to_arg_thresholds [of 1536]
  by (simp add: str_nat.simps digit_char_def)

text \<open>
  The rendering by multiples fails at 1536 (not a multiple of 1 KiB, yet rendered \<open>1k\<close>),
  at 0 (a multiple of 1 MiB, rendered \<open>0\<close>) and at 1025 KiB (rendered \<open>1m\<close>).
\<close>

theorem size_to_arg_multiples_counterexample:
  "size_to_arg 1536 = ''1k'' \<and> size_arg_by_multiples 1536 = ''1536''
   \<and> size_to_arg 0 = ''0'' \<and> size_arg_by_multiples 0 = ''0m''
   \<and> size_to_arg 1049600 = ''1m'' \<and> size_arg_by_multiples 1049600 = ''1025k''
   \<and> ws_size_to_arg 1536 = ''1k''"
  by (simp add: size_to_arg_def ws_size_to_arg_def size_arg_by_multiples_def str_int_def
      str_nat.simps digit_char_def)

section \<open>Content types and the flags of a command\<close>

lemma selected_types_distinct: "distinct (selected_types a b c)"
  by (simp add: selected_types_def)

lemma selected_types_members: "set (selected_types a b c) \<subseteq> {''pdf'', ''text'', ''images''}"
  by (cases a; cases b; cases c) (simp_all add: selected_types_def)

lemma card_all_types: "card {''pdf'', ''text'', ''images''} = 3"
  by simp

lemma selected_types_strict:
  "(length (selected_types a b c) < 3) = (set (selected_types a b c) \<subset> {''pdf'', ''text'', ''images''})"
proof -
  let ?sel = "selected_types a b c" and ?all = "{''pdf'', ''text'', ''images''}"
  have c: "card (set ?sel) = length ?sel"
    by (rule distinct_card) (rule selected_types_distinct)
  have sub: "set ?sel \<subseteq> ?all"
    by (rule selected_types_members)
  show ?thesis
  proof
    assume "length ?sel < 3"
    with c have "card (set ?sel) \<noteq> card ?all"
      by (simp only: card_all_types)
    then have "set ?sel \<noteq> ?all" by metis
    with sub show "set ?sel \<subset> ?all" by blast
  next
    assume "set ?sel \<subset> ?all"
    then have "card (set ?sel) < card ?all"
      by (intro psubset_card_mono) simp_all
    with c show "length ?sel < 3"
      by (simp only: card_all_types)
  qed
qed

lemma interval_args_members:
  "set (interval_args size_to_arg (union_interval (selected_ranges a b c)))
     \<subseteq> {''--min-image-size'', ''--max-image-size'', ''100k'', ''1m''}"
  by (cases a; cases b; cases c) (simp_all add: interval_args_cases)

lemma crawl_args_members:
  "x \<in> set (crawl_args f) \<Longrightarrow>
     x \<in> {''--crawl'', ''--max-depth'', ''--workers'', ''--same-domain-only''} \<or> (\<exists>i. x = str_int i)"
  by (auto simp: crawl_args_def split: if_splits option.splits)

lemma not_dashes_literals:
  "\<not> startswith ''100k'' ''--''" "\<not> startswith ''1m'' ''--''"
  "\<not> startswith ''pdf'' ''--''" "\<not> startswith ''text'' ''--''" "\<not> startswith ''images'' ''--''"
  by (simp_all add: startswith_def)

lemma common_args_flag:
  assumes x: "startswith x ''--''"
    and lit: "x \<notin> builder_flags"
    and L: "run_scrape_locals f = Inr L"
  shows "(x \<in> set (common_args L)) =
         (x \<in> set (base_cmd f)
          \<or> (flaresolverr_var f \<and> strip (flaresolverr_url_var f) \<noteq> []
              \<and> x = strip (flaresolverr_url_var f)))"
proof -
  from lit have ne: "x \<noteq> ''--min-image-size''" "x \<noteq> ''--max-image-size''" "x \<noteq> ''--js''"
    "x \<noteq> ''--flaresolverr''" "x \<noteq> ''--crawl''" "x \<noteq> ''--max-depth''" "x \<noteq> ''--workers''"
    "x \<noteq> ''--same-domain-only''" "x \<noteq> ''--keep-awake''"
    by (simp_all add: builder_flags_def)
  have size: "x \<notin> set (interval_args size_to_arg
      (union_interval (selected_ranges (size_small_var f) (size_medium_var f) (size_large_var f))))"
  proof
    assume "x \<in> set (interval_args size_to_arg
      (union_interval (selected_ranges (size_small_var f) (size_medium_var f) (size_large_var f))))"
    with interval_args_members
    have "x \<in> {''--min-image-size'', ''--max-image-size'', ''100k'', ''1m''}"
      by (rule subsetD)
    with ne have "x = ''100k'' \<or> x = ''1m''" by simp
    then show False
    proof
      assume "x = ''100k''"
      with x have "startswith ''100k'' ''--''" by simp
      then show False by (simp add: not_dashes_literals)
    next
      assume "x = ''1m''"
      with x have "startswith ''1m'' ''--''" by simp
      then show False by (simp add: not_dashes_literals)
    qed
  qed
  have crawl: "x \<notin> set (crawl_args f)"
  proof
    assume "x \<in> set (crawl_args f)"
    then have "x \<in> {''--crawl'', ''--max-depth'', ''--workers'', ''--same-domain-only''}
        \<or> (\<exists>i. x = str_int i)"
      by (rule crawl_args_members)
    with ne have "\<exists>i. x = str_int i" by simp
    then obtain i where "x = str_int i" ..
    with x have "startswith (str_int i) ''--''" by simp
    with str_int_not_dashes show False by simp
  qed
  have fl: "(x \<in> set (flaresolverr_args f)) =
      (flaresolverr_var f \<and> strip (flaresolverr_url_var f) \<noteq> [] \<and> x = strip (flaresolverr_url_var f))"
    using ne by (simp add: flaresolverr_args_def Let_def)
  from L have "common_args L = base_cmd f
            @ interval_args size_to_arg
                (union_interval
                   (selected_ranges (size_small_var f) (size_medium_var f) (size_large_var f)))
            @ (if js_var f then [''--js''] else [])
            @ flaresolverr_args f @ crawl_args f
            @ (if keep_awake_var f then [''--keep-awake''] else [])"
    by (auto simp: run_scrape_locals_eq)
  with size crawl fl ne show ?thesis by simp
qed

lemma build_cmd_flag:
  assumes x: "startswith x ''--''"
    and lit: "x \<notin> builder_flags"
    and L: "run_scrape_locals f = Inr L"
  shows "(x \<in> set (build_cmd L urls inc)) =
         (x \<in> set (user_values f L urls inc) \<or> x \<in> set (types_args L)
          \<or> (inc \<and> done_script L \<noteq> [] \<and> x = ''--done-script''))"
proof -
  from lit have ne: "x \<noteq> ''--url''" "x \<noteq> ''--out-dir''" "x \<noteq> ''--delay''"
    by (simp_all add: builder_flags_def)
  note c = common_args_flag [OF x lit L]
  show ?thesis
    using ne by (simp add: build_cmd_def user_values_def c Let_def) blast
qed

lemma strip_eval:
  "strip '' http://a '' = ''http://a''" "strip ''http://b'' = ''http://b''" "strip [] = []"
  "strip '' out '' = ''out''" "strip '' echo {out_dir} '' = ''echo {out_dir}''" "strip '' '' = []"
  by (simp_all add: strip_def lstrip_def rstrip_def strip_leading.simps whitespace_def
      startswith_def)

text \<open>
  C7.  For every non-empty selection of content types, both front-ends put \<open>--types\<close>
  followed by the selected types (in the order pdf, text, images) into the command if and
  only if the selection is a strict subset of the three types; with all three selected
  the builder adds no \<open>--types\<close> argument, so \<open>--types\<close> is then in the argv only if the
  user typed it as one of the values.
\<close>

theorem types_args_strict_subset:
  assumes sel: "sel = selected_types (type_pdf_var f) (type_text_var f) (type_images_var f)"
    and ne: "sel \<noteq> []"
    and wsel: "wsel = selected_types (ws_type_pdf_var w) (ws_type_text_var w) (ws_type_images_var w)"
    and wne: "wsel \<noteq> []"
    and url: "strip (ws_url_var w) \<noteq> []"
  shows "(\<exists>L. run_scrape_locals f = Inr L
          \<and> (types_args L = ''--types'' # sel) = (set sel \<subset> {''pdf'', ''text'', ''images''})
          \<and> (types_args L = []) = (set sel = {''pdf'', ''text'', ''images''})
          \<and> build_cmd L urls inc =
              common_args L @ [''--url''] @ urls
              @ [''--out-dir'', out_dir L, ''--delay'', delay L]
              @ (if set sel \<subset> {''pdf'', ''text'', ''images''} then ''--types'' # sel else [])
              @ (if inc \<and> done_script L \<noteq> [] then [''--done-script'', done_script L] else [])
          \<and> (''--types'' \<in> set (build_cmd L urls inc)) =
              (set sel \<subset> {''pdf'', ''text'', ''images''}
               \<or> ''--types'' \<in> set (user_values f L urls inc)))
       \<and> ws_run_scrape w =
           Inr (Launch
             (ws_base w
              @ [''--url'', strip (ws_url_var w),
                 ''--out-dir'', if strip (ws_out_var w) \<noteq> [] then strip (ws_out_var w) else ''output'',
                 ''--delay'', ws_delay_str w]
              @ (if set wsel \<subset> {''pdf'', ''text'', ''images''} then ''--types'' # wsel else [])
              @ interval_args ws_size_to_arg
                  (union_interval
                     (selected_ranges (ws_size_small_var w) (ws_size_medium_var w)
                        (ws_size_large_var w)))
              @ (if ws_crawl_var w
                 then [''--crawl'', ''--max-depth'',
                       str_int (case ws_depth_var w of Some d \<Rightarrow> d | None \<Rightarrow> 2)]
                      @ (if ws_same_domain_var w then [''--same-domain-only''] else [])
                 else [])))"
proof -
  let ?all = "{''pdf'', ''text'', ''images''}"
  obtain L where L: "run_scrape_locals f = Inr L"
    by (simp add: run_scrape_locals_eq)
  have strict: "(length sel < 3) = (set sel \<subset> ?all)"
    unfolding sel by (rule selected_types_strict)
  have sub: "set sel \<subseteq> ?all"
    unfolding sel by (rule selected_types_members)
  from L have "types_args L =
      (if selected_types (type_pdf_var f) (type_text_var f) (type_images_var f) \<noteq> []
          \<and> length (selected_types (type_pdf_var f) (type_text_var f) (type_images_var f)) < 3
       then ''--types'' # selected_types (type_pdf_var f) (type_text_var f) (type_images_var f)
       else [])"
    by (auto simp: run_scrape_locals_eq)
  then have ta: "types_args L = (if set sel \<subset> ?all then ''--types'' # sel else [])"
    using ne strict by (simp add: sel [symmetric])
  have t1: "(types_args L = ''--types'' # sel) = (set sel \<subset> ?all)"
    by (simp add: ta)
  have t2: "(types_args L = []) = (set sel = ?all)"
    using sub by (simp add: ta psubset_eq)
  have b: "build_cmd L urls inc =
      common_args L @ [''--url''] @ urls @ [''--out-dir'', out_dir L, ''--delay'', delay L]
      @ (if set sel \<subset> ?all then ''--types'' # sel else [])
      @ (if inc \<and> done_script L \<noteq> [] then [''--done-script'', done_script L] else [])"
    by (simp add: build_cmd_def ta Let_def)
  have notin: "''--types'' \<notin> set sel"
  proof
    assume "''--types'' \<in> set sel"
    with sub have "''--types'' \<in> ?all" by (rule subsetD)
    then show False by simp
  qed
  have mem_ta: "(''--types'' \<in> set (types_args L)) = (set sel \<subset> ?all)"
    using notin by (simp add: ta)
  have "startswith ''--types'' ''--''"
    by (simp add: startswith_def)
  moreover have "''--types'' \<notin> builder_flags"
    by (simp add: builder_flags_def)
  ultimately have "(''--types'' \<in> set (build_cmd L urls inc)) =
      (''--types'' \<in> set (user_values f L urls inc) \<or> ''--types'' \<in> set (types_args L)
       \<or> (inc \<and> done_script L \<noteq> [] \<and> ''--types'' = ''--done-script''))"
    using L by (rule build_cmd_flag)
  then have m: "(''--types'' \<in> set (build_cmd L urls inc)) =
      (set sel \<subset> ?all \<or> ''--types'' \<in> set (user_values f L urls inc))"
    by (simp add: mem_ta disj_commute)
  have wstrict: "(length wsel < 3) = (set wsel \<subset> ?all)"
    unfolding wsel by (rule selected_types_strict)
  have fmt: "ws_size_to_arg = size_to_arg"
    by (rule ext) (rule size_to_arg_eq)
  have ws: "ws_run_scrape w =
           Inr (Launch
             (ws_base w
              @ [''--url'', strip (ws_url_var w),
                 ''--out-dir'', if strip (ws_out_var w) \<noteq> [] then strip (ws_out_var w) else ''output'',
                 ''--delay'', ws_delay_str w]
              @ (if set wsel \<subset> ?all then ''--types'' # wsel else [])
              @ interval_args ws_size_to_arg
                  (union_interval
                     (selected_ranges (ws_size_small_var w) (ws_size_medium_var w)
                        (ws_size_large_var w)))
              @ (if ws_crawl_var w
                 then [''--crawl'', ''--max-depth'',
                       str_int (case ws_depth_var w of Some d \<Rightarrow> d | None \<Rightarrow> 2)]
                      @ (if ws_same_domain_var w then [''--same-domain-only''] else [])
                 else [])))"
    using url wne wstrict
    by (simp add: ws_run_scrape_def ws_tail_def ws_size_args_eq image_size_args_interval
        Let_def fmt wsel [symmetric])
  have "\<exists>L. run_scrape_locals f = Inr L
          \<and> (types_args L = ''--types'' # sel) = (set sel \<subset> ?all)
          \<and> (types_args L = []) = (set sel = ?all)
          \<and> build_cmd L urls inc =
              common_args L @ [''--url''] @ urls
              @ [''--out-dir'', out_dir L, ''--delay'', delay L]
              @ (if set sel \<subset> ?all then ''--types'' # sel else [])
              @ (if inc \<and> done_script L \<noteq> [] then [''--done-script'', done_script L] else [])
          \<and> (''--types'' \<in> set (build_cmd L urls inc)) =
              (set sel \<subset> ?all \<or> ''--types'' \<in> set (user_values f L urls inc))"
    by (intro exI [of _ L] conjI) (rule L t1 t2 b m)+
  then show ?thesis using ws by (rule conjI)
qed

theorem types_args_strict_subset_witness:
  "(\<exists>L. run_scrape_locals demo_form = Inr L
      \<and> types_args L = [''--types'', ''pdf'', ''images'']
      \<and> ''--types'' \<in> set (build_cmd L [''http://a''] False))
   \<and> ws_run_scrape demo_ws_form =
       Inr (Launch [''python'', ''-m'', ''web_scraper.cli'', ''--url'', ''http://a'',
                    ''--out-dir'', ''output'', ''--delay'', ''1.0'', ''--types'', ''text'',
                    ''--max-image-size'', ''1m'', ''--crawl'', ''--max-depth'', ''3''])"
proof -
  have s1: "[''pdf'', ''images''] =
      selected_types (type_pdf_var demo_form) (type_text_var demo_form) (type_images_var demo_form)"
    by (simp add: demo_form_def selected_types_def)
  have s2: "[''text''] =
      selected_types (ws_type_pdf_var demo_ws_form) (ws_type_text_var demo_ws_form)
        (ws_type_images_var demo_ws_form)"
    by (simp add: demo_ws_form_def selected_types_def)
  have u: "strip (ws_url_var demo_ws_form) \<noteq> []"
    by (simp add: demo_ws_form_def strip_eval)
  have p1: "set [''pdf'', ''images''] \<subset> {''pdf'', ''text'', ''images''}"
    using selected_types_strict [of True False True] by (simp add: selected_types_def)
  have p2: "set [''text''] \<subset> {''pdf'', ''text'', ''images''}"
    using selected_types_strict [of False True False] by (simp add: selected_types_def)
  have i: "interval_args ws_size_to_arg (union_interval (selected_ranges True True False)) =
      [''--max-image-size'', ''1m'']"
    by (simp add: interval_args_def union_interval_def selected_ranges_def size_eval)
  note t = types_args_strict_subset [OF s1 _ s2 _ u, of "[''http://a'']" False]
  from t p1 p2 i show ?thesis
    by (simp add: demo_ws_form_def strip_eval str_int_def str_nat.simps digit_char_def)
       (elim exE conjE, intro exI conjI, assumption+)
qed

section \<open>Progress interpreter\<close>

lemma update_status_first_match:
  "update_status E line s = pattern_effects E line s ! first_match line"
  by (cases "scrape_counts s")
     (simp add: update_status_def first_match_def pattern_tests_def pattern_effects_def
        set_progress_def Let_def split: option.splits)

lemma contains_eval:
  "first_match ''Found: 12 items'' = 1"
  "first_match ''  PDF: a.pdf'' = 6"
  "first_match ''  Image: b.jpg'' = 5"
  "first_match ''  Text: c.txt'' = 4"
  by (simp_all add: first_match_def pattern_tests_def startswith_def right_arrow_def)



section \<open>Workers, polls and Stop\<close>

lemma puts_simps [simp]:
  "puts [] = []"
  "puts (Put e # acts) = e # puts acts"
  "puts (Popen c # acts) = puts acts"
  "puts (SetProc p # acts) = puts acts"
  "puts (AppendProc p # acts) = puts acts"
  "puts (ClearProc # acts) = puts acts"
  "puts (xs @ ys) = puts xs @ puts ys"
  by (simp_all add: puts_def)

lemma puts_lines: "puts (map (\<lambda>l. Put (Some (g l))) ls) = map (\<lambda>l. Some (g l)) ls"
  by (induction ls) simp_all

lemma sentinels_simps [simp]:
  "sentinels [] = 0"
  "sentinels (None # evs) = Suc (sentinels evs)"
  "sentinels (Some l # evs) = sentinels evs"
  "sentinels (xs @ ys) = sentinels xs + sentinels ys"
  by (induction xs) (simp_all add: sentinels_def)

lemma sentinels_lines: "sentinels (map (\<lambda>l. Some (g l)) ls) = 0"
  by (induction ls) simp_all

lemma worker_puts:
  "puts (worker cmd r) =
     (case r of
        Raises e \<Rightarrow> [Some (error_line e), None]
      | Child p ls x \<Rightarrow>
          map Some ls @ (case x of Some e \<Rightarrow> [Some (error_line e)] | None \<Rightarrow> []) @ [None])"
  using puts_lines [of "\<lambda>l. l"]
  by (simp add: worker_def split: popen_result.splits option.splits)

lemma parallel_worker_puts:
  "puts (parallel_worker idx n cmd r) =
     (case r of
        Raises e \<Rightarrow> [Some (label idx n @ error_line e), None]
      | Child p ls x \<Rightarrow>
          map (\<lambda>l. Some (label idx n @ l)) ls
          @ (case x of Some e \<Rightarrow> [Some (label idx n @ error_line e)] | None \<Rightarrow> [])
          @ [None])"
  using puts_lines [of "\<lambda>l. label idx n @ l"]
  by (simp add: parallel_worker_def split: popen_result.splits option.splits)

lemma worker_sentinels: "sentinels (puts (worker cmd r)) = 1"
  using sentinels_lines [of "\<lambda>l. l"]
  by (simp add: worker_puts split: popen_result.splits option.splits)

lemma parallel_worker_sentinels: "sentinels (puts (parallel_worker idx n cmd r)) = 1"
  using sentinels_lines [of "\<lambda>l. label idx n @ l"]
  by (simp add: parallel_worker_puts split: popen_result.splits option.splits)

lemma worker_last: "last (puts (worker cmd r)) = None"
  by (simp add: worker_puts split: popen_result.splits option.splits)

lemma parallel_worker_last: "last (puts (parallel_worker idx n cmd r)) = None"
  by (simp add: parallel_worker_puts split: popen_result.splits option.splits)

text \<open>Running one thread to its end.\<close>

lemma do_wact_threads [simp]: "threads (do_wact a s) = threads s"
  by (cases a) simp_all

lemma do_wact_queue: "output_queue (do_wact a s) = output_queue s @ put_of a"
  by (cases a) simp_all

lemma do_wact_threads_update:
  "do_wact a (s\<lparr>threads := t\<rparr>) = (do_wact a s)\<lparr>threads := t\<rparr>"
  by (cases a) simp_all

lemma exec_append [simp]: "exec E (a @ b) s = exec E b (exec E a s)"
  by (simp add: exec_def)

lemma exec_Nil [simp]: "exec E [] s = s"
  by (simp add: exec_def)

lemma exec_Cons [simp]: "exec E (x # xs) s = exec E xs (exec_step E x s)"
  by (simp add: exec_def)

lemma run_thread:
  "i < length (threads s) \<Longrightarrow> threads s ! i = acts \<Longrightarrow>
   output_queue (exec E (replicate (length acts) (Thread i)) s) = output_queue s @ puts acts
   \<and> threads (exec E (replicate (length acts) (Thread i)) s) = (threads s)[i := []]"
proof (induction acts arbitrary: s)
  case Nil
  then show ?case using list_update_id [of "threads s" i] by simp
next
  case (Cons a acts)
  let ?s1 = "thread_step i s"
  from Cons.prems have s1: "?s1 = (do_wact a s)\<lparr>threads := (threads s)[i := acts]\<rparr>"
    by (simp add: thread_step_def)
  then have "i < length (threads ?s1)" and "threads ?s1 ! i = acts"
    using Cons.prems by simp_all
  from Cons.IH [OF this] s1 show ?case
    by (simp add: do_wact_queue puts_def)
qed

lemma show_line_frame [simp]:
  "output_queue (show_line E l s) = output_queue s"
  "current_proc (show_line E l s) = current_proc s"
  "current_procs (show_line E l s) = current_procs s"
  "scrape_btn (show_line E l s) = scrape_btn s"
  "stop_btn (show_line E l s) = stop_btn s"
  "parallel_done_count (show_line E l s) = parallel_done_count s"
  "run_parallel (show_line E l s) = run_parallel s"
  "num_urls (show_line E l s) = num_urls s"
  "run_locals (show_line E l s) = run_locals s"
  "threads (show_line E l s) = threads s"
  "poll_scheduled (show_line E l s) = poll_scheduled s"
  "popen_calls (show_line E l s) = popen_calls s"
  "terminate_calls (show_line E l s) = terminate_calls s"
  "shell_runs (show_line E l s) = shell_runs s"
  "dequeued (show_line E l s) = dequeued s"
  by (simp_all add: show_line_def update_status_def set_progress_def append_log_def Let_def
      split: option.splits prod.splits)

lemma run_done_script_async_frame [simp]:
  "output_queue (run_done_script_async E c out s) = output_queue s"
  "current_proc (run_done_script_async E c out s) = current_proc s"
  "current_procs (run_done_script_async E c out s) = current_procs s"
  "scrape_btn (run_done_script_async E c out s) = scrape_btn s"
  "stop_btn (run_done_script_async E c out s) = stop_btn s"
  "parallel_done_count (run_done_script_async E c out s) = parallel_done_count s"
  "run_parallel (run_done_script_async E c out s) = run_parallel s"
  "num_urls (run_done_script_async E c out s) = num_urls s"
  "run_locals (run_done_script_async E c out s) = run_locals s"
  "threads (run_done_script_async E c out s) = threads s"
  "poll_scheduled (run_done_script_async E c out s) = poll_scheduled s"
  "dequeued (run_done_script_async E c out s) = dequeued s"
  by (simp_all add: run_done_script_async_def Let_def split: option.splits)

lemma run_done_script_async_runs:
  "shell_runs (run_done_script_async E c out s) =
     shell_runs s @ (if c = [] then [] else [replace (strip c) ''{out_dir}'' (abspath E out)])"
  by (simp add: run_done_script_async_def Let_def split: option.splits)

text \<open>A poll only moves events from the queue to the history of dequeued events.\<close>

lemma drain_parallel_events:
  "dequeued (drain_parallel E q s) @ output_queue (drain_parallel E q s) = dequeued s @ q"
  by (induction E q s rule: drain_parallel.induct) (simp_all add: Let_def)

lemma drain_parallel_frame [simp]:
  "current_proc (drain_parallel E q s) = current_proc s"
  "current_procs (drain_parallel E q s) = current_procs s"
  "scrape_btn (drain_parallel E q s) = scrape_btn s"
  "stop_btn (drain_parallel E q s) = stop_btn s"
  "run_parallel (drain_parallel E q s) = run_parallel s"
  "num_urls (drain_parallel E q s) = num_urls s"
  "run_locals (drain_parallel E q s) = run_locals s"
  "threads (drain_parallel E q s) = threads s"
  "poll_scheduled (drain_parallel E q s) = poll_scheduled s"
  "shell_runs (drain_parallel E q s) = shell_runs s"
  by (induction E q s rule: drain_parallel.induct) (simp_all add: Let_def)

lemma drain_events:
  "dequeued (snd (drain E q s)) @ output_queue (snd (drain E q s)) = dequeued s @ q"
  by (induction E q s rule: drain.induct) simp_all

lemma drain_frame [simp]:
  "current_proc (snd (drain E q s)) = current_proc s"
  "current_procs (snd (drain E q s)) = current_procs s"
  "scrape_btn (snd (drain E q s)) = scrape_btn s"
  "stop_btn (snd (drain E q s)) = stop_btn s"
  "run_parallel (snd (drain E q s)) = run_parallel s"
  "num_urls (snd (drain E q s)) = num_urls s"
  "run_locals (snd (drain E q s)) = run_locals s"
  "threads (snd (drain E q s)) = threads s"
  "poll_scheduled (snd (drain E q s)) = poll_scheduled s"
  "shell_runs (snd (drain E q s)) = shell_runs s"
  "parallel_done_count (snd (drain E q s)) = parallel_done_count s"
  by (induction E q s rule: drain.induct) simp_all

lemma tick_events:
  "dequeued (tick E s) @ output_queue (tick E s) = dequeued s @ output_queue s"
  using drain_parallel_events [of E "output_queue s" s] drain_events [of E "output_queue s" s]
  by (simp add: tick_def poll_queue_parallel_def poll_queue_def Let_def split_beta)

lemma tick_frame [simp]:
  "threads (tick E s) = threads s"
  "current_proc (tick E s) = current_proc s"
  "current_procs (tick E s) = current_procs s"
  "run_parallel (tick E s) = run_parallel s"
  "num_urls (tick E s) = num_urls s"
  "run_locals (tick E s) = run_locals s"
  by (simp_all add: tick_def poll_queue_parallel_def poll_queue_def Let_def split_beta)

lemma sentinels_pending_update:
  "i < length ts \<Longrightarrow> ts ! i = a # rest \<Longrightarrow>
   sentinels (concat (map puts (ts[i := rest]))) + sentinels (put_of a)
     = sentinels (concat (map puts ts))"
proof (induction ts arbitrary: i)
  case Nil
  then show ?case by simp
next
  case (Cons t ts)
  show ?case
  proof (cases i)
    case 0
    with Cons.prems show ?thesis by (simp add: puts_def)
  next
    case (Suc j)
    with Cons.prems Cons.IH [of j] show ?thesis by simp
  qed
qed

lemma thread_step_frame [simp]:
  "dequeued (thread_step i s) = dequeued s"
  "scrape_btn (thread_step i s) = scrape_btn s"
  "stop_btn (thread_step i s) = stop_btn s"
  "parallel_done_count (thread_step i s) = parallel_done_count s"
  "run_parallel (thread_step i s) = run_parallel s"
  "num_urls (thread_step i s) = num_urls s"
  "run_locals (thread_step i s) = run_locals s"
  "poll_scheduled (thread_step i s) = poll_scheduled s"
  "shell_runs (thread_step i s) = shell_runs s"
  "length (threads (thread_step i s)) = length (threads s)"
proof -
  have f: "\<And>a. dequeued (do_wact a s) = dequeued s \<and> scrape_btn (do_wact a s) = scrape_btn s
      \<and> stop_btn (do_wact a s) = stop_btn s
      \<and> parallel_done_count (do_wact a s) = parallel_done_count s
      \<and> run_parallel (do_wact a s) = run_parallel s \<and> num_urls (do_wact a s) = num_urls s
      \<and> run_locals (do_wact a s) = run_locals s
      \<and> poll_scheduled (do_wact a s) = poll_scheduled s
      \<and> shell_runs (do_wact a s) = shell_runs s"
    subgoal for a by (cases a) simp_all
    done
  show "dequeued (thread_step i s) = dequeued s"
    "scrape_btn (thread_step i s) = scrape_btn s"
    "stop_btn (thread_step i s) = stop_btn s"
    "parallel_done_count (thread_step i s) = parallel_done_count s"
    "run_parallel (thread_step i s) = run_parallel s"
    "num_urls (thread_step i s) = num_urls s"
    "run_locals (thread_step i s) = run_locals s"
    "poll_scheduled (thread_step i s) = poll_scheduled s"
    "shell_runs (thread_step i s) = shell_runs s"
    "length (threads (thread_step i s)) = length (threads s)"
    by (simp_all add: thread_step_def f split: list.splits)
qed

lemma thread_step_total: "total_sentinels (thread_step i s) = total_sentinels s"
proof (cases "i < length (threads s)")
  case False
  then show ?thesis by (simp add: thread_step_def)
next
  case True
  show ?thesis
  proof (cases "threads s ! i")
    case Nil
    with True show ?thesis by (simp add: thread_step_def)
  next
    case (Cons a rest)
    from True Cons
    have "sentinels (concat (map puts ((threads s)[i := rest]))) + sentinels (put_of a)
        = sentinels (concat (map puts (threads s)))"
      by (rule sentinels_pending_update)
    moreover have "dequeued (do_wact a s) = dequeued s"
      by (cases a) simp_all
    ultimately show ?thesis
      using True Cons
      by (simp add: thread_step_def total_sentinels_def pending_def do_wact_queue)
  qed
qed

lemma do_stop_frame [simp]:
  "dequeued (do_stop s) = dequeued s"
  "scrape_btn (do_stop s) = scrape_btn s"
  "stop_btn (do_stop s) = stop_btn s"
  "parallel_done_count (do_stop s) = parallel_done_count s"
  "run_parallel (do_stop s) = run_parallel s"
  "num_urls (do_stop s) = num_urls s"
  "run_locals (do_stop s) = run_locals s"
  "poll_scheduled (do_stop s) = poll_scheduled s"
  "shell_runs (do_stop s) = shell_runs s"
  "threads (do_stop s) = threads s"
  "current_proc (do_stop s) = current_proc s"
  "current_procs (do_stop s) = []"
  by (simp_all add: do_stop_def Let_def split: option.splits)

lemma do_stop_queue:
  "output_queue (do_stop s) =
     output_queue s @ (case current_proc s of Some p \<Rightarrow> [None] | None \<Rightarrow> [])"
  by (simp add: do_stop_def Let_def split: option.splits)

lemma do_stop_terminates:
  "terminate_calls (do_stop s) =
     terminate_calls s @ current_procs s
     @ (case current_proc s of Some p \<Rightarrow> [p] | None \<Rightarrow> [])"
  by (simp add: do_stop_def Let_def split: option.splits)

lemma do_stop_total:
  "total_sentinels (do_stop s) =
     total_sentinels s + (case current_proc s of Some p \<Rightarrow> 1 | None \<Rightarrow> 0)"
  by (simp add: total_sentinels_def pending_def do_stop_queue split: option.splits)

lemma tick_total: "total_sentinels (tick E s) = total_sentinels s"
  using tick_events [of E s] by (simp add: total_sentinels_def pending_def del: sentinels_simps(4))

lemma exec_total_no_stop:
  "Click_stop \<notin> set sched \<Longrightarrow> total_sentinels (exec E sched s) = total_sentinels s"
proof (induction sched arbitrary: s)
  case Nil
  then show ?case by simp
next
  case (Cons x sched)
  then show ?case
    by (cases x) (simp_all add: thread_step_total tick_total)
qed

text \<open>The sequential poll loop takes at most one sentinel off the queue in a run.\<close>

lemma drain_sentinels:
  "sentinels (dequeued (snd (drain E q s))) =
     sentinels (dequeued s) + (if fst (drain E q s) then 1 else 0)"
  by (induction E q s rule: drain.induct) simp_all

lemma drain_saw_done: "fst (drain E q s) = (None \<in> set q)"
  by (induction E q s rule: drain.induct) simp_all

lemma seq_inv_step: "seq_inv s \<Longrightarrow> seq_inv (exec_step E x s)"
proof (cases x)
  case (Thread i)
  assume "seq_inv s"
  with Thread show ?thesis by (auto simp: seq_inv_def split: if_splits)
next
  case Tick
  assume "seq_inv s"
  with Tick show ?thesis
    using drain_sentinels [of E "output_queue s" s]
    by (auto simp: seq_inv_def tick_def poll_queue_def split_beta split: if_splits)
next
  case Click_stop
  assume "seq_inv s"
  with Click_stop show ?thesis by (auto simp: seq_inv_def split: if_splits)
qed

lemma seq_inv_exec: "seq_inv s \<Longrightarrow> seq_inv (exec E sched s)"
  by (induction sched arbitrary: s) (simp_all add: seq_inv_step)

lemma start_sequential_fields:
  "dequeued (start_sequential E f L urls g) = []"
  "output_queue (start_sequential E f L urls g) = output_queue g"
  "threads (start_sequential E f L urls g) =
     [worker (build_cmd L urls True) (popen E 0 (build_cmd L urls True))]"
  "poll_scheduled (start_sequential E f L urls g)"
  "\<not> run_parallel (start_sequential E f L urls g)"
  "stop_btn (start_sequential E f L urls g)"
  "scrape_btn (start_sequential E f L urls g) = scrape_btn g"
  "current_proc (start_sequential E f L urls g) = current_proc g"
  "current_procs (start_sequential E f L urls g) = current_procs g"
  "terminate_calls (start_sequential E f L urls g) = terminate_calls g"
  "popen_calls (start_sequential E f L urls g) = popen_calls g"
  by (simp_all add: start_sequential_def log_size_filter_def append_log_def Let_def)

lemma sentinels_member: "0 < sentinels q \<Longrightarrow> None \<in> set q"
  by (induction q) (auto simp: sentinels_def split: if_splits)

lemma stale_sentinel:
  assumes "None \<in> set (output_queue g)"
  shows "\<not> poll_scheduled (tick E (start_sequential E f L urls g))"
    "scrape_btn (tick E (start_sequential E f L urls g))"
    "\<not> stop_btn (tick E (start_sequential E f L urls g))"
    "sentinels (dequeued (tick E (start_sequential E f L urls g))) = 1"
    "pending (tick E (start_sequential E f L urls g)) \<noteq> []"
proof -
  let ?s = "start_sequential E f L urls g"
  from assms have saw: "fst (drain E (output_queue ?s) ?s)"
    by (simp add: drain_saw_done start_sequential_fields)
  then show "\<not> poll_scheduled (tick E ?s)" "scrape_btn (tick E ?s)" "\<not> stop_btn (tick E ?s)"
    by (simp_all add: tick_def poll_queue_def split_beta start_sequential_fields)
  from saw show "sentinels (dequeued (tick E ?s)) = 1"
    using drain_sentinels [of E "output_queue ?s" ?s]
    by (simp add: tick_def poll_queue_def split_beta start_sequential_fields)
  have "sentinels (pending (tick E ?s)) = 1"
    by (simp add: pending_def start_sequential_fields worker_sentinels)
  then show "pending (tick E ?s) \<noteq> []"
    by auto
qed


lemma demo_running_fields:
  "current_proc demo_running = Some 7"
  "stop_btn demo_running"
  "output_queue demo_running = []"
  "current_procs demo_running = []"
  "terminate_calls demo_running = []"
  by code_simp+

text \<open>The state of a parallel run, between its steps.\<close>

lemma drain_parallel_count:
  "parallel_done_count s = int (sentinels (dequeued s)) \<Longrightarrow>
   sentinels (dequeued s) < N \<Longrightarrow> num_urls s = int N \<Longrightarrow>
   parallel_done_count (drain_parallel E q s) = int (sentinels (dequeued (drain_parallel E q s)))
   \<and> sentinels (dequeued (drain_parallel E q s)) \<le> N"
proof (induction E q s rule: drain_parallel.induct)
  case (1 E s)
  then show ?case by simp
next
  case (2 E q s)
  let ?s' = "s\<lparr>parallel_done_count := parallel_done_count s + 1,
               dequeued := dequeued s @ [None]\<rparr>"
  show ?case
  proof (cases "parallel_done_count ?s' \<ge> num_urls ?s'")
    case True
    with "2.prems" show ?thesis by (simp add: Let_def)
  next
    case False
    with "2.prems" have "parallel_done_count (drain_parallel E q ?s') =
        int (sentinels (dequeued (drain_parallel E q ?s')))
        \<and> sentinels (dequeued (drain_parallel E q ?s')) \<le> N"
      by (intro "2.IH") simp_all
    with False show ?thesis by (simp add: Let_def)
  qed
next
  case (3 E l q s)
  from "3.prems" have "parallel_done_count
       (drain_parallel E q (show_line E l (s\<lparr>dequeued := dequeued s @ [Some l]\<rparr>))) =
      int (sentinels (dequeued
        (drain_parallel E q (show_line E l (s\<lparr>dequeued := dequeued s @ [Some l]\<rparr>)))))
      \<and> sentinels (dequeued
        (drain_parallel E q (show_line E l (s\<lparr>dequeued := dequeued s @ [Some l]\<rparr>)))) \<le> N"
    by (intro "3.IH") simp_all
  then show ?case by simp
qed

lemma par_inv_tick: "par_inv E N L runs s \<Longrightarrow> par_inv E N L runs (tick E s)"
proof (cases "poll_scheduled s")
  case False
  assume "par_inv E N L runs s"
  with False show ?thesis by (simp add: tick_def)
next
  case True
  assume inv: "par_inv E N L runs s"
  let ?s1 = "drain_parallel E (output_queue s) s"
  from inv True have pre: "parallel_done_count s = int (sentinels (dequeued s))"
    "sentinels (dequeued s) < N" "num_urls s = int N" "run_parallel s" "run_locals s = L"
    "stop_btn s" "\<not> scrape_btn s" "shell_runs s = runs"
    by (simp_all add: par_inv_def)
  from pre(1-3) have c: "parallel_done_count ?s1 = int (sentinels (dequeued ?s1))"
    "sentinels (dequeued ?s1) \<le> N"
    using drain_parallel_count [of s N E "output_queue s"] by simp_all
  show ?thesis
  proof (cases "parallel_done_count ?s1 \<ge> num_urls ?s1")
    case False
    with True pre c show ?thesis
      by (simp add: tick_def poll_queue_parallel_def Let_def par_inv_def)
  next
    case fin: True
    with c pre have "sentinels (dequeued ?s1) = N" by simp
    with fin True pre c show ?thesis
      by (simp add: tick_def poll_queue_parallel_def Let_def par_inv_def
          run_done_script_async_runs done_script_cmd_def)
  qed
qed

lemma par_inv_step: "par_inv E N L runs s \<Longrightarrow> par_inv E N L runs (exec_step E x s)"
proof (cases x)
  case (Thread i)
  assume "par_inv E N L runs s"
  with Thread show ?thesis by (simp add: par_inv_def)
next
  case Tick
  assume "par_inv E N L runs s"
  with Tick show ?thesis by (simp add: par_inv_tick)
next
  case Click_stop
  assume "par_inv E N L runs s"
  with Click_stop show ?thesis by (simp add: par_inv_def)
qed

lemma par_inv_exec: "par_inv E N L runs s \<Longrightarrow> par_inv E N L runs (exec E sched s)"
  by (induction sched arbitrary: s) (simp_all add: par_inv_step)

lemma start_parallel_fields:
  "dequeued (start_parallel E f L urls g) = []"
  "output_queue (start_parallel E f L urls g) = output_queue g"
  "threads (start_parallel E f L urls g) =
     map (\<lambda>(i, u). parallel_worker (int i) (int (length urls)) (build_cmd L [u] False)
                     (popen E i (build_cmd L [u] False)))
         (enumerate 0 urls)"
  "poll_scheduled (start_parallel E f L urls g)"
  "run_parallel (start_parallel E f L urls g)"
  "num_urls (start_parallel E f L urls g) = int (length urls)"
  "run_locals (start_parallel E f L urls g) = L"
  "parallel_done_count (start_parallel E f L urls g) = 0"
  "stop_btn (start_parallel E f L urls g)"
  "scrape_btn (start_parallel E f L urls g) = scrape_btn g"
  "shell_runs (start_parallel E f L urls g) = shell_runs g"
  "current_procs (start_parallel E f L urls g) = []"
  by (simp_all add: start_parallel_def log_size_filter_def append_log_def Let_def)

lemma run_scrape_parallel:
  assumes "urls = filter (\<lambda>l. l \<noteq> []) (map strip (url_lines f))"
    and "urls_mode_var f = ''parallel''" and "1 < length urls"
    and "selected_types (type_pdf_var f) (type_text_var f) (type_images_var f) \<noteq> []"
    and "run_scrape_locals f = Inr L"
  shows "run_scrape E f g =
     Inr (start_parallel E f L urls
            (g\<lparr>scrape_btn := False, state_var := ''Running'', progress_var := em_dash,
               scrape_counts := (0, 0, 0)\<rparr>))"
proof -
  from assms(3) have ne: "urls \<noteq> []"
    by (cases urls) simp_all
  show ?thesis
    unfolding run_scrape_def Let_def assms(1) [symmetric]
    using ne assms(2-5) by simp
qed

lemma run_scrape_sequential:
  assumes "urls = filter (\<lambda>l. l \<noteq> []) (map strip (url_lines f))"
    and "urls \<noteq> []"
    and "urls_mode_var f \<noteq> ''parallel'' \<or> length urls = 1"
    and "selected_types (type_pdf_var f) (type_text_var f) (type_images_var f) \<noteq> []"
    and "run_scrape_locals f = Inr L"
  shows "run_scrape E f g =
     Inr (start_sequential E f L urls
            (g\<lparr>scrape_btn := False, state_var := ''Running'', progress_var := em_dash,
               scrape_counts := (0, 0, 0)\<rparr>))"
  unfolding run_scrape_def Let_def assms(1) [symmetric]
  using assms(2-5) by auto

lemma par_inv_start:
  "1 < length urls \<Longrightarrow>
   par_inv E (length urls) L (shell_runs g)
     (start_parallel E f L urls (g\<lparr>scrape_btn := False, state_var := ''Running'',
        progress_var := em_dash, scrape_counts := (0, 0, 0)\<rparr>))"
proof -
  assume "1 < length urls"
  then have "urls \<noteq> []" by (cases urls) simp_all
  then show ?thesis
    by (simp add: par_inv_def start_parallel_fields)
qed

text \<open>The outcome of the done script has no influence on a run.\<close>

lemma show_line_subprocess_run [simp]:
  "show_line (E\<lparr>subprocess_run := r\<rparr>) l s = show_line E l s"
  by (simp add: show_line_def update_status_def split del: if_split cong: if_cong)

lemma run_done_script_async_swallows [simp]:
  "run_done_script_async (E\<lparr>subprocess_run := r\<rparr>) c out s = run_done_script_async E c out s"
  by (simp add: run_done_script_async_def Let_def split: option.splits)

lemma drain_parallel_subprocess_run [simp]:
  "drain_parallel (E\<lparr>subprocess_run := r\<rparr>) q s = drain_parallel E q s"
  by (induction E q s rule: drain_parallel.induct) (simp_all add: Let_def)

lemma drain_subprocess_run [simp]:
  "drain (E\<lparr>subprocess_run := r\<rparr>) q s = drain E q s"
  by (induction E q s rule: drain.induct) simp_all

lemma exec_step_subprocess_run [simp]:
  "exec_step (E\<lparr>subprocess_run := r\<rparr>) x s = exec_step E x s"
  by (cases x) (simp_all add: tick_def poll_queue_parallel_def poll_queue_def Let_def)

lemma exec_subprocess_run: "exec (E\<lparr>subprocess_run := r\<rparr>) sched s = exec E sched s"
  by (induction sched arbitrary: s) simp_all

text \<open>The threads of a parallel run.\<close>

lemma label_eq: "label (int i) (int n) = ''['' @ str_nat (Suc i) @ ''/'' @ str_nat n @ ''] ''"
proof -
  have "str_int (int i + 1) = str_nat (Suc i)"
    using str_int_nonneg [of "int i + 1"] by (simp add: nat_add_distrib)
  moreover have "str_int (int n) = str_nat n"
    using str_int_nonneg [of "int n"] by simp
  ultimately show ?thesis by (simp add: label_def)
qed

lemma parallel_thread:
  assumes "i < length urls"
  shows "threads (start_parallel E f L urls g) ! i =
      parallel_worker (int i) (int (length urls)) (build_cmd L [urls ! i] False)
        (popen E i (build_cmd L [urls ! i] False))"
  using assms by (simp add: start_parallel_fields nth_enumerate_eq)

lemma parallel_worker_head:
  "\<exists>rest. parallel_worker idx n cmd r = Popen cmd # rest"
  by (cases r) (simp_all add: parallel_worker_def)

lemma parallel_worker_prefixed:
  "e \<in> set (puts (parallel_worker idx n cmd r)) \<Longrightarrow> e = None \<or> (\<exists>l. e = Some (label idx n @ l))"
  by (auto simp: parallel_worker_puts split: popen_result.splits option.splits)

lemma parallel_run_inv:
  assumes urls: "urls = filter (\<lambda>l. l \<noteq> []) (map strip (url_lines f))"
    and mode: "urls_mode_var f = ''parallel''" and n: "1 < length urls"
    and types: "selected_types (type_pdf_var f) (type_text_var f) (type_images_var f) \<noteq> []"
    and L: "run_scrape_locals f = Inr L"
  shows "\<exists>s0. run_scrape E f g = Inr s0
      \<and> length (threads s0) = length urls
      \<and> (\<forall>i<length urls. threads s0 ! i =
            parallel_worker (int i) (int (length urls)) (build_cmd L [urls ! i] False)
              (popen E i (build_cmd L [urls ! i] False)))
      \<and> (\<forall>sched. par_inv E (length urls) L (shell_runs g) (exec E sched s0))"
proof -
  let ?g = "g\<lparr>scrape_btn := False, state_var := ''Running'', progress_var := em_dash,
               scrape_counts := (0, 0, 0)\<rparr>"
  let ?s0 = "start_parallel E f L urls ?g"
  from urls mode n types L have r: "run_scrape E f g = Inr ?s0"
    by (rule run_scrape_parallel)
  have len: "length (threads ?s0) = length urls"
    by (simp add: start_parallel_fields)
  have th: "\<forall>i<length urls. threads ?s0 ! i =
            parallel_worker (int i) (int (length urls)) (build_cmd L [urls ! i] False)
              (popen E i (build_cmd L [urls ! i] False))"
    by (simp add: parallel_thread)
  from n have "par_inv E (length urls) L (shell_runs g) ?s0"
    by (rule par_inv_start)
  then have "\<forall>sched. par_inv E (length urls) L (shell_runs g) (exec E sched ?s0)"
    by (simp add: par_inv_exec)
  with r len th show ?thesis by blast
qed


lemma demo_urls:
  "[''http://a'', ''http://b''] = filter (\<lambda>l. l \<noteq> []) (map strip (url_lines demo_form))"
  by code_simp

lemma demo_mode: "urls_mode_var demo_form = ''parallel''"
  by (simp add: demo_form_def)

lemma demo_types:
  "selected_types (type_pdf_var demo_form) (type_text_var demo_form) (type_images_var demo_form)
     \<noteq> []"
  by (simp add: demo_form_def selected_types_def)

lemma demo_parallel_start: "run_scrape demo_env demo_form init_app = Inr demo_parallel"
  by code_simp

lemma demo_parallel_run:
  "sentinels (dequeued (exec demo_env demo_schedule demo_parallel)) = 2"
  "shell_runs (exec demo_env demo_schedule demo_parallel) = [''echo /home/u/out'']"
  "shell_runs (exec demo_env (butlast demo_schedule) demo_parallel) = []"
  "sentinels (dequeued (exec demo_env (butlast demo_schedule) demo_parallel)) = 1"
  by code_simp+


text \<open>
  C3.  Whatever \<open>Popen\<close> and the child do, the events a sequential or parallel worker
  puts contain exactly one sentinel, and it is the last event: after the lines of a child
  whose stream closed (and one \<open>Error:\<close> line if reading raised), or after the single
  \<open>Error:\<close> line carrying the message when \<open>Popen\<close> itself raised.  A thread that runs all
  its steps appends exactly these events to the shared queue.
\<close>

theorem worker_enqueues_one_sentinel:
  "sentinels (puts (worker cmd r)) = 1 \<and> last (puts (worker cmd r)) = None
   \<and> sentinels (puts (parallel_worker idx n cmd r)) = 1
   \<and> last (puts (parallel_worker idx n cmd r)) = None
   \<and> puts (worker cmd (Child p ls x)) =
       map Some ls @ (case x of Some e \<Rightarrow> [Some (''Error: '' @ e @ newline)] | None \<Rightarrow> [])
       @ [None]
   \<and> puts (worker cmd (Raises e)) = [Some (''Error: '' @ e @ newline), None]
   \<and> puts (parallel_worker idx n cmd (Raises e)) =
       [Some (label idx n @ ''Error: '' @ e @ newline), None]
   \<and> (i < length (threads s) \<longrightarrow>
        output_queue (exec E (replicate (length (threads s ! i)) (Thread i)) s)
          = output_queue s @ puts (threads s ! i)
        \<and> pending (exec E (replicate (length (threads s ! i)) (Thread i)) s)
          = pending (s\<lparr>threads := (threads s)[i := []]\<rparr>))"
proof -
  have a: "puts (worker cmd (Child p ls x)) =
       map Some ls @ (case x of Some e \<Rightarrow> [Some (''Error: '' @ e @ newline)] | None \<Rightarrow> [])
       @ [None]"
    by (cases x) (simp_all add: worker_puts error_line_def)
  have b: "puts (worker cmd (Raises e)) = [Some (''Error: '' @ e @ newline), None]"
    by (simp add: worker_puts error_line_def)
  have c: "puts (parallel_worker idx n cmd (Raises e)) =
       [Some (label idx n @ ''Error: '' @ e @ newline), None]"
    by (simp add: parallel_worker_puts error_line_def)
  have d: "i < length (threads s) \<longrightarrow>
        output_queue (exec E (replicate (length (threads s ! i)) (Thread i)) s)
          = output_queue s @ puts (threads s ! i)
        \<and> pending (exec E (replicate (length (threads s ! i)) (Thread i)) s)
          = pending (s\<lparr>threads := (threads s)[i := []]\<rparr>)"
    using run_thread [of i s "threads s ! i" E] by (simp add: pending_def)
  from worker_sentinels worker_last parallel_worker_sentinels parallel_worker_last a b c d
  show ?thesis by (intro conjI)
qed

theorem worker_enqueues_one_sentinel_witness:
  "0 < length (threads demo_parallel)
   \<and> output_queue (exec demo_env (replicate (length (threads demo_parallel ! 0)) (Thread 0))
        demo_parallel)
     = [Some (''[1/2] Found: 2 items'' @ newline), Some (''[1/2]   PDF: x'' @ newline), None]
   \<and> puts (threads demo_parallel ! 1) = [Some (''[2/2] Error: No such file'' @ newline), None]"
proof -
  have l: "0 < length (threads demo_parallel)"
    by code_simp
  have q: "output_queue demo_parallel @ puts (threads demo_parallel ! 0)
      = [Some (''[1/2] Found: 2 items'' @ newline), Some (''[1/2]   PDF: x'' @ newline), None]"
    by code_simp
  have p: "puts (threads demo_parallel ! 1) = [Some (''[2/2] Error: No such file'' @ newline), None]"
    by code_simp
  from worker_enqueues_one_sentinel
    [of "[]" "Raises []" 0 0 0 "[]" None "[]" 0 demo_parallel demo_env]
  have "0 < length (threads demo_parallel) \<longrightarrow>
        output_queue (exec demo_env (replicate (length (threads demo_parallel ! 0)) (Thread 0))
          demo_parallel)
          = output_queue demo_parallel @ puts (threads demo_parallel ! 0)
        \<and> pending (exec demo_env (replicate (length (threads demo_parallel ! 0)) (Thread 0))
            demo_parallel)
          = pending (demo_parallel\<lparr>threads := (threads demo_parallel)[0 := []]\<rparr>)"
    by (elim conjE)
  with l have "output_queue (exec demo_env (replicate (length (threads demo_parallel ! 0)) (Thread 0))
          demo_parallel)
          = output_queue demo_parallel @ puts (threads demo_parallel ! 0)"
    by simp
  with q have "output_queue (exec demo_env (replicate (length (threads demo_parallel ! 0)) (Thread 0))
        demo_parallel)
     = [Some (''[1/2] Found: 2 items'' @ newline), Some (''[1/2]   PDF: x'' @ newline), None]"
    by simp
  with l p show ?thesis by (intro conjI)
qed

lemma do_stop_twice_queue:
  "output_queue (do_stop (do_stop s)) =
     output_queue (do_stop s) @ (case current_proc s of Some p \<Rightarrow> [None] | None \<Rightarrow> [])"
  by (simp add: do_stop_queue)

lemma do_stop_idempotent_unregistered:
  "current_proc s = None \<Longrightarrow> do_stop (do_stop s) = do_stop s"
  by (simp add: do_stop_def Let_def)

text \<open>
  C5.  A second \<open>do_stop\<close> is to leave the tracked processes, the queue and the stopped
  state as the first call left them.  It does so once \<open>current_proc[0]\<close> is \<open>None\<close>, but
  not while the sequential child is still registered: in the state of a sequential run
  after the worker's first two steps (spawn and registration) Stop stays enabled after the
  first click, and the second \<open>do_stop\<close> calls \<open>terminate()\<close> on the child again and puts
  a second sentinel on the queue.
\<close>

theorem do_stop_twice_registered:
  "current_proc demo_running = Some 7
   \<and> stop_btn (do_stop demo_running)
   \<and> exec demo_env [Click_stop, Click_stop] demo_running = do_stop (do_stop demo_running)
   \<and> output_queue (do_stop demo_running) = [None]
   \<and> output_queue (do_stop (do_stop demo_running)) = [None, None]
   \<and> terminate_calls (do_stop demo_running) = [7]
   \<and> terminate_calls (do_stop (do_stop demo_running)) = [7, 7]
   \<and> do_stop (do_stop demo_running) \<noteq> do_stop demo_running"
  by code_simp




end
